theory Spec2Isabelle
  imports Main "HOL-Library.AList"
begin

section \<open>JavaScript values the engine handles\<close>

text \<open>
  Strings are lists of characters, one per code unit as counted by \<^verbatim>\<open>text.length\<close>.
  An optional field of an instruction is an \<open>option\<close>: \<open>None\<close> is an absent field.
  The engine tests most fields for truthiness only: an absent field, the empty string and
  the number 0 are falsy.
\<close>

definition truthy :: "string option \<Rightarrow> bool" where
  "truthy v = (case v of None \<Rightarrow> False | Some x \<Rightarrow> x \<noteq> [])"

text \<open>\<^verbatim>\<open>v || d\<close> on an optional string and on an optional number.\<close>

definition str_or :: "string option \<Rightarrow> string \<Rightarrow> string" where
  "str_or v d = (case v of None \<Rightarrow> d | Some x \<Rightarrow> if x = [] then d else x)"

definition num_or :: "nat option \<Rightarrow> nat \<Rightarrow> nat" where
  "num_or v d = (case v of None \<Rightarrow> d | Some n \<Rightarrow> if n = 0 then d else n)"

text \<open>
  \<^verbatim>\<open>this.labels = {}\<close> is a plain object: it inherits the properties of
  \<^verbatim>\<open>Object.prototype\<close>. The operator \<^verbatim>\<open>in\<close> sees inherited properties, and
  an assignment to \<^verbatim>\<open>__proto__\<close> runs the inherited setter, which ignores a number
  and creates no own property. The own properties are kept as an association list.
\<close>

definition Object_prototype_keys :: "string list" where
  "Object_prototype_keys =
     [''constructor'', ''__defineGetter__'', ''__defineSetter__'', ''hasOwnProperty'',
      ''__lookupGetter__'', ''__lookupSetter__'', ''isPrototypeOf'', ''propertyIsEnumerable'',
      ''toString'', ''valueOf'', ''__proto__'', ''toLocaleString'']"

definition obj_has :: "string \<Rightarrow> (string \<times> 'v) list \<Rightarrow> bool" where
  "obj_has k ob = (case map_of ob k of Some _ \<Rightarrow> True | None \<Rightarrow> k \<in> set Object_prototype_keys)"

definition obj_set :: "string \<Rightarrow> 'v \<Rightarrow> (string \<times> 'v) list \<Rightarrow> (string \<times> 'v) list" where
  "obj_set k v ob = (if k = ''__proto__'' then ob else AList.update k v ob)"

text \<open>
  The resource tables, the states of a character and \<^verbatim>\<open>this.state.chars\<close> are plain
  objects too. A read \<^verbatim>\<open>ob[k]\<close> finds the own property, or else the inherited one: a
  built-in function, or \<^verbatim>\<open>Object.prototype\<close> itself for \<^verbatim>\<open>__proto__\<close>, which the
  inherited getter answers whatever the own properties are.
\<close>

datatype 'v lookup = Own 'v | Inherited string | Absent

definition obj_get :: "string \<Rightarrow> (string \<times> 'v) list \<Rightarrow> 'v lookup" where
  "obj_get k ob =
     (case (if k = ''__proto__'' then None else map_of ob k) of
        Some v \<Rightarrow> Own v
      | None \<Rightarrow> if k \<in> set Object_prototype_keys then Inherited k else Absent)"

text \<open>
  A string the page receives: a string of the script or of the resources, or the string
  that the inherited property \<open>k\<close> turns into (\<open>Native k\<close>: the source text of a
  built-in function, which differs between browsers, or \<^verbatim>\<open>[object Object]\<close>).
\<close>

datatype jstext = Str string | Native string

text \<open>The errors the engine's own code can throw.\<close>

datatype js_error = TypeError | SyntaxError

text \<open>
  The program counter is a number as long as it is only incremented or set from an own
  property of the label object. \<^verbatim>\<open>this.labels[id] + 1\<close> on an inherited property is a
  string that is no numeral, and \<^verbatim>\<open>this.pc++\<close> turns it into NaN; both compare false
  with every number and index no instruction, so they are one value here.
\<close>

datatype pcval = Num nat | NotNum

fun pc_incr :: "pcval \<Rightarrow> pcval" where
  "pc_incr (Num n) = Num (Suc n)"
| "pc_incr NotNum = NotNum"

fun pc_ge :: "pcval \<Rightarrow> nat \<Rightarrow> bool" where
  "pc_ge (Num n) k = (k \<le> n)"
| "pc_ge NotNum k = False"

section \<open>Instructions\<close>

record choice =
  ch_text :: "string option"
  ch_goto :: "string option"
  ch_callback :: "nat option"

record say_cmd =
  say_who :: "string option"
  say_name :: "string option"
  say_text :: "string option"

record bg_cmd =
  bg_show :: "bool option"
  bg_src :: "string option"
  bg_wait :: "nat option"

record char_cmd =
  char_id :: "string option"
  char_action :: "string option"
  char_state :: "string option"
  char_side :: "string option"
  char_wait :: "nat option"

record bgm_cmd =
  bgm_action :: "string option"
  bgm_id :: "string option"
  bgm_loop :: bool

text \<open>
  An instruction is dispatched on its \<^verbatim>\<open>type\<close> string. \<open>Other t\<close> is an instruction
  whose type is a non-empty string outside the switch; \<open>NoType\<close> is an object whose
  type is falsy; \<open>Null\<close> is a null or undefined entry of the script, and what an
  index outside the script reads.
\<close>

datatype cmd =
    Say say_cmd
  | Bg bg_cmd
  | Char char_cmd
  | Choice "choice list option"
  | Wait "nat option"
  | Label "string option"
  | Jump "string option"
  | Bgm bgm_cmd
  | End
  | Other string
  | NoType
  | Null

section \<open>Engine state\<close>

text \<open>
  The completion callback that \<^verbatim>\<open>_cmdSay\<close> hands to the typewriter closes over
  \<^verbatim>\<open>hasChoiceAfter\<close> and \<^verbatim>\<open>hasEndAfter\<close>.
\<close>

datatype callback = SayDone bool bool

text \<open>
  A pending \<^verbatim>\<open>setTimeout\<close> callback: \<^verbatim>\<open>() => this.next()\<close>, the typewriter's
  \<^verbatim>\<open>tick\<close> with the text, the index \<^verbatim>\<open>i\<close> and the callback it closes over, or the
  removal of a hidden character's element.
\<close>

datatype task = TNext | TTick string nat callback | TRemove nat

datatype warning =
    LabelNotFound string
  | UnknownCmd string
  | UnknownCharAction string
  | CharUndefined string
  | BgmPlayFailed

text \<open>
  An entry of \<^verbatim>\<open>resources.characters\<close>: its \<^verbatim>\<open>name\<close> and its \<^verbatim>\<open>states\<close>, either of
  which may be missing; the states are listed in the order of \<^verbatim>\<open>Object.keys\<close>.
\<close>

record character =
  res_name :: "string option"
  res_states :: "(string \<times> string) list option"

record char_rt =
  rt_visible :: "bool option"
  rt_state :: "string option"
  rt_side :: "string option"
  rt_el :: "nat option"

record char_el =
  el_uid :: nat
  el_id :: string
  el_side :: string
  el_src :: jstext
  el_opacity :: nat

record audio =
  au_src :: "jstext option"
  au_loop :: bool
  au_playing :: bool

datatype btn_label = BtnText string | BtnDefault nat

record engine =
  transition :: nat
  characters :: "(string \<times> character) list"
  backgrounds :: "(string \<times> string) list"
  bgm :: "(string \<times> string) list"
  script :: "cmd list"
  labels :: "(string \<times> nat) list"
  pc :: pcval
  running :: bool
  bgVisible :: bool
  chars :: "(string \<times> char_rt) list"
  state_bgm :: "string option"
  nameLabel :: string
  textContent :: string
  choiceBox :: "(btn_label \<times> choice) list"
  bgOpacity :: nat
  bgImage :: "jstext option"
  charLayer :: "char_el list"
  bgmAudio :: "audio option"
  waitingForClick :: bool
  endOnClick :: bool
  now :: nat
  timers :: "(nat \<times> task) list"
  frames :: "nat list"
  next_uid :: nat
  audio_fails :: bool
  query_unsafe :: "string \<Rightarrow> char_el list \<Rightarrow> js_error + char_el option"
  warnings :: "warning list"
  uncaught :: "js_error list"
  callbacks_run :: "nat list"

text \<open>
  Beyond the fields of the JavaScript object, the record holds the part of the page and
  of the browser the engine acts on: the text of the name label and of the content box,
  the buttons of the choice box, the background layer (\<open>bgImage\<close> is the url of the
  background image, if one is set), the character elements (each with a unique number,
  since a removal timer closes over the element, not over its id), the virtual clock
  \<open>now\<close> in milliseconds, the pending timers in the order they were set, each with the
  time it was set for, the pending animation-frame requests, whether the audio device
  rejects playback (\<open>audio_fails\<close>), the \<^verbatim>\<open>console.warn\<close> log, the errors thrown by
  the engine's code and caught by nobody (\<open>uncaught\<close>), and the log of the choice
  callbacks run. A choice callback is opaque code; it is taken not to touch the engine.
  The three resource tables hold the own properties of \<^verbatim>\<open>this.resources\<close>; their
  prototype is \<^verbatim>\<open>Object.prototype\<close>.

  \<open>query_unsafe\<close> is what \<^verbatim>\<open>querySelector\<close> answers for a character id that cannot
  stand between the quotes of the selector \<^verbatim>\<open>.gal-char[data-id="..."]\<close> as it is (see
  \<open>css_safe\<close> below): a \<^verbatim>\<open>SyntaxError\<close> for most such ids (for \<^verbatim>\<open>a"b\<close>, say), the
  result of another selector for the others. It is a parameter of the model.
\<close>

datatype outcome = Return engine | ThenNext engine

text \<open>
  Every synchronous call of \<^verbatim>\<open>this.next()\<close> inside a handler is its last action.
  A handler returns \<open>ThenNext s\<close> when it ends by calling \<^verbatim>\<open>this.next()\<close> in state
  \<open>s\<close>, and \<open>Return s\<close> when it returns to the event loop. An error thrown in a
  handler unwinds to the event loop as well, since no caller catches it or does
  anything after the call: the handler returns the state at the throw, with the error
  in the \<open>uncaught\<close> log.
\<close>

fun state_of :: "outcome \<Rightarrow> engine" where
  "state_of (Return s) = s"
| "state_of (ThenNext s) = s"

definition END_TEXT :: string where
  "END_TEXT = [CHR ''['', CHR 0xE6, CHR 0xB8, CHR 0xB8, CHR 0xE6, CHR 0x88, CHR 0x8F,
               CHR 0xE7, CHR 0xBB, CHR 0x93, CHR 0xE6, CHR 0x9D, CHR 0x9F, CHR '']'']"

definition new_engine :: "nat \<Rightarrow> engine" where
  "new_engine tr =
     \<lparr>transition = tr, characters = [], backgrounds = [], bgm = [],
      script = [], labels = [], pc = Num 0, running = False,
      bgVisible = True, chars = [], state_bgm = None,
      nameLabel = [], textContent = [], choiceBox = [],
      bgOpacity = 1, bgImage = None, charLayer = [], bgmAudio = None,
      waitingForClick = False, endOnClick = False,
      now = 0, timers = [], frames = [], next_uid = 0, audio_fails = False,
      query_unsafe = (\<lambda>i els. Inl SyntaxError),
      warnings = [], uncaught = [], callbacks_run = []\<rparr>"

definition warn :: "warning \<Rightarrow> engine \<Rightarrow> engine" where
  "warn w s = s\<lparr>warnings := warnings s @ [w]\<rparr>"

definition throw :: "js_error \<Rightarrow> engine \<Rightarrow> engine" where
  "throw e s = s\<lparr>uncaught := uncaught s @ [e]\<rparr>"

text \<open>
  The browser reads the delay of \<^verbatim>\<open>setTimeout\<close> as a 32-bit signed integer: it wraps
  modulo 4294967296 into the range from -2147483648, and a negative delay is 0.
\<close>

definition timer_delay :: "nat \<Rightarrow> nat" where
  "timer_delay d = (let w = d mod 4294967296 in if w < 2147483648 then w else 0)"

definition setTimeout :: "task \<Rightarrow> nat \<Rightarrow> engine \<Rightarrow> engine" where
  "setTimeout t d s = s\<lparr>timers := timers s @ [(now s + timer_delay d, t)]\<rparr>"

section \<open>Script control\<close>

text \<open>
  \<^verbatim>\<open>_indexLabels\<close> reads \<^verbatim>\<open>cmd.type\<close> of every entry. At a null or undefined entry
  that read throws a \<^verbatim>\<open>TypeError\<close>, which ends the scan and \<^verbatim>\<open>start\<close>: the index
  holds the labels before that entry, and the run is not started.
\<close>

definition indexLabels :: "cmd list \<Rightarrow> (string \<times> nat) list" where
  "indexLabels scr =
     foldl (\<lambda>acc (i, c).
              case c of
                Label (Some l) \<Rightarrow> if l \<noteq> [] then obj_set l i acc else acc
              | _ \<Rightarrow> acc)
       [] (takeWhile (\<lambda>(i, c). c \<noteq> Null) (zip [0..<length scr] scr))"

definition jumpToLabel :: "string \<Rightarrow> engine \<Rightarrow> engine" where
  "jumpToLabel l s =
     (if obj_has l (labels s)
      then s\<lparr>pc := (case map_of (labels s) l of Some i \<Rightarrow> Num (i + 1) | None \<Rightarrow> NotNum)\<rparr>
      else warn (LabelNotFound l) s)"

text \<open>\<^verbatim>\<open>this.script[this.pc]\<close>: undefined outside the script.\<close>

definition fetch :: "cmd list \<Rightarrow> pcval \<Rightarrow> cmd" where
  "fetch scr p = (case p of Num n \<Rightarrow> if n < length scr then scr ! n else Null | NotNum \<Rightarrow> Null)"

definition onEnd :: "engine \<Rightarrow> engine" where
  "onEnd s = s\<lparr>nameLabel := [], textContent := END_TEXT\<rparr>"

section \<open>The typewriter\<close>

definition run_cb :: "callback \<Rightarrow> engine \<Rightarrow> outcome" where
  "run_cb cb s =
     (case cb of SayDone hasChoiceAfter hasEndAfter \<Rightarrow>
        if hasChoiceAfter then ThenNext s
        else if hasEndAfter then Return (s\<lparr>waitingForClick := True, endOnClick := True\<rparr>)
        else Return (s\<lparr>waitingForClick := True\<rparr>))"

definition tick :: "string \<Rightarrow> nat \<Rightarrow> callback \<Rightarrow> engine \<Rightarrow> outcome" where
  "tick txt i cb s =
     (if length txt \<le> i then run_cb cb s
      else Return (setTimeout (TTick txt (i + 1) cb) 16 (s\<lparr>textContent := take (i + 1) txt\<rparr>)))"

definition typeText :: "string \<Rightarrow> callback \<Rightarrow> engine \<Rightarrow> outcome" where
  "typeText txt cb s = tick txt 0 cb (s\<lparr>choiceBox := [], textContent := []\<rparr>)"

section \<open>Instruction handlers\<close>

definition is_choice :: "cmd \<Rightarrow> bool" where
  "is_choice c = (case c of Choice _ \<Rightarrow> True | _ \<Rightarrow> False)"

definition is_end :: "cmd \<Rightarrow> bool" where
  "is_end c = (case c of End \<Rightarrow> True | _ \<Rightarrow> False)"

text \<open>
  \<^verbatim>\<open>who && this.resources.characters[who] ? this.resources.characters[who].name : (cmd.name || '')\<close>.
  An inherited property is truthy; the \<^verbatim>\<open>name\<close> of a built-in function is the name
  of the property, but for \<^verbatim>\<open>constructor\<close>, which is the function \<^verbatim>\<open>Object\<close>;
  \<^verbatim>\<open>Object.prototype\<close> has no \<^verbatim>\<open>name\<close>, and an undefined name shows as the empty
  text.
\<close>

definition speaker :: "say_cmd \<Rightarrow> engine \<Rightarrow> string" where
  "speaker c s =
     (let who = str_or (say_who c) []
      in case (if who \<noteq> [] then obj_get who (characters s) else Absent) of
           Own ch \<Rightarrow> (case res_name ch of None \<Rightarrow> [] | Some n \<Rightarrow> n)
         | Inherited k \<Rightarrow>
             if k = ''constructor'' then ''Object'' else if k = ''__proto__'' then [] else k
         | Absent \<Rightarrow> str_or (say_name c) [])"

definition cmdSay :: "say_cmd \<Rightarrow> engine \<Rightarrow> outcome" where
  "cmdSay c s =
     (let s1 = s\<lparr>nameLabel := speaker c s\<rparr>;
          nextCmd = fetch (script s1) (pc s1);
          hasChoiceAfter = is_choice nextCmd;
          hasEndAfter = is_end nextCmd
      in typeText (str_or (say_text c) []) (SayDone hasChoiceAfter hasEndAfter) s1)"

text \<open>
  \<^verbatim>\<open>table[k] || k\<close> on a table of strings: the own string if it is not empty, the
  string of the inherited property, or the key itself.
\<close>

definition lookup_or_key :: "(string \<times> string) list \<Rightarrow> string \<Rightarrow> jstext" where
  "lookup_or_key tab k =
     (case obj_get k tab of
        Own v \<Rightarrow> if v \<noteq> [] then Str v else Str k
      | Inherited n \<Rightarrow> Native n
      | Absent \<Rightarrow> Str k)"

definition setBgImage :: "jstext \<Rightarrow> engine \<Rightarrow> engine" where
  "setBgImage url s = s\<lparr>bgImage := (if url = Str [] then None else Some url)\<rparr>"

definition cmdBg :: "bg_cmd \<Rightarrow> engine \<Rightarrow> outcome" where
  "cmdBg c s =
     (let s1 = (case bg_show c of
                  None \<Rightarrow> s
                | Some b \<Rightarrow> s\<lparr>bgVisible := b, bgOpacity := (if b then 1 else 0)\<rparr>);
          s2 = (if truthy (bg_src c)
                then setBgImage (lookup_or_key (backgrounds s1) (the (bg_src c))) s1
                else s1)
      in Return (setTimeout TNext (num_or (bg_wait c) (transition s2)) s2))"

text \<open>
  \<^verbatim>\<open>_getCharEl\<close> puts the id between double quotes in a selector. An id without a
  double quote, a backslash, a line break, a form feed or a null character stands there
  for itself, and the selector finds the first element with that \<^verbatim>\<open>data-id\<close>. For any
  other id the selector is malformed or means something else: the answer is the
  browser's.
\<close>

definition css_safe :: "string \<Rightarrow> bool" where
  "css_safe i = list_all (\<lambda>c. c \<notin> set [CHR 0x22, CHR 0x5C, CHR 0x0A, CHR 0x0D, CHR 0x0C, CHR 0x00]) i"

definition getCharEl :: "string \<Rightarrow> engine \<Rightarrow> js_error + char_el option" where
  "getCharEl i s =
     (if css_safe i then Inr (find (\<lambda>e. el_id e = i) (charLayer s))
      else query_unsafe s i (charLayer s))"

text \<open>
  \<^verbatim>\<open>Object.assign(this.state.chars[id] || {}, ...)\<close>: the entry, or an empty one. For an
  id that names an inherited property and has no entry yet, the object found is the
  inherited one, which has none of the four fields either. The assignment
  \<^verbatim>\<open>this.state.chars[id] = ...\<close> stores the entry, but under \<^verbatim>\<open>__proto__\<close>.
\<close>

definition chars_entry :: "string \<Rightarrow> engine \<Rightarrow> char_rt" where
  "chars_entry i s =
     (case map_of (chars s) i of
        Some r \<Rightarrow> r
      | None \<Rightarrow> \<lparr>rt_visible = None, rt_state = None, rt_side = None, rt_el = None\<rparr>)"

text \<open>
  \<^verbatim>\<open>resChar.states[state] || state\<close>, then \<^verbatim>\<open>url || ''\<close>. The key of a property
  access is the string of the value: \<open>null_key\<close> is \<^verbatim>\<open>"null"\<close> where the state is
  null (in \<^verbatim>\<open>_showChar\<close>) and \<^verbatim>\<open>"undefined"\<close> where it is undefined (in
  \<^verbatim>\<open>_setCharState\<close>).
\<close>

definition state_url :: "(string \<times> string) list \<Rightarrow> string \<Rightarrow> string option \<Rightarrow> jstext" where
  "state_url states null_key st =
     (case obj_get (case st of None \<Rightarrow> null_key | Some x \<Rightarrow> x) states of
        Own v \<Rightarrow> if v \<noteq> [] then Str v else Str (str_or st [])
      | Inherited n \<Rightarrow> Native n
      | Absent \<Rightarrow> Str (str_or st []))"

definition update_el :: "nat \<Rightarrow> (char_el \<Rightarrow> char_el) \<Rightarrow> engine \<Rightarrow> engine" where
  "update_el u f s = s\<lparr>charLayer := map (\<lambda>e. if el_uid e = u then f e else e) (charLayer s)\<rparr>"

text \<open>
  \<^verbatim>\<open>_showChar\<close>, \<^verbatim>\<open>_hideChar\<close> and \<^verbatim>\<open>_setCharState\<close> return the new state, or the
  error they throw. Each throws before it changes anything: a \<^verbatim>\<open>TypeError\<close> on
  \<^verbatim>\<open>resChar.states[state]\<close> where the character found is an inherited property or has
  no states, or the error of \<^verbatim>\<open>querySelector\<close>.
\<close>

definition showChar :: "string \<Rightarrow> string option \<Rightarrow> string \<Rightarrow> engine \<Rightarrow> js_error + engine" where
  "showChar i st side s =
     (case obj_get i (characters s) of
        Absent \<Rightarrow> Inr (warn (CharUndefined i) s)
      | Inherited _ \<Rightarrow> Inl TypeError
      | Own resChar \<Rightarrow>
          (case res_states resChar of
             None \<Rightarrow> Inl TypeError
           | Some states \<Rightarrow>
               (case getCharEl i s of
                  Inl e \<Rightarrow> Inl e
                | Inr found \<Rightarrow>
                    let url = state_url states ''null'' st;
                        (u, s1) = (case found of
                           None \<Rightarrow>
                             (next_uid s,
                              s\<lparr>charLayer := charLayer s @
                                   [\<lparr>el_uid = next_uid s, el_id = i, el_side = side,
                                     el_src = Str [], el_opacity = 0\<rparr>],
                                 next_uid := next_uid s + 1\<rparr>)
                         | Some el \<Rightarrow> (el_uid el, update_el (el_uid el) (\<lambda>e. e\<lparr>el_side := side\<rparr>) s));
                        s2 = update_el u (\<lambda>e. e\<lparr>el_src := url\<rparr>) s1;
                        s3 = s2\<lparr>chars := obj_set i
                               ((chars_entry i s2)\<lparr>rt_visible := Some True, rt_state := st,
                                  rt_side := Some side, rt_el := Some u\<rparr>) (chars s2)\<rparr>
                    in Inr (s3\<lparr>frames := frames s3 @ [u]\<rparr>))))"

definition hideChar :: "string \<Rightarrow> engine \<Rightarrow> js_error + engine" where
  "hideChar i s =
     (case getCharEl i s of
        Inl e \<Rightarrow> Inl e
      | Inr None \<Rightarrow> Inr s
      | Inr (Some el) \<Rightarrow>
          let s1 = update_el (el_uid el) (\<lambda>e. e\<lparr>el_opacity := 0\<rparr>) s;
              s2 = s1\<lparr>chars := obj_set i ((chars_entry i s1)\<lparr>rt_visible := Some False\<rparr>) (chars s1)\<rparr>
          in Inr (setTimeout (TRemove (el_uid el)) (transition s2) s2))"

definition setCharState :: "string \<Rightarrow> string option \<Rightarrow> engine \<Rightarrow> js_error + engine" where
  "setCharState i st s =
     (case obj_get i (characters s) of
        Absent \<Rightarrow> Inr (warn (CharUndefined i) s)
      | Inherited _ \<Rightarrow> Inl TypeError
      | Own resChar \<Rightarrow>
          (case res_states resChar of
             None \<Rightarrow> Inl TypeError
           | Some states \<Rightarrow>
               (case getCharEl i s of
                  Inl e \<Rightarrow> Inl e
                | Inr found \<Rightarrow>
                    let url = state_url states ''undefined'' st;
                        s1 = (case found of
                                None \<Rightarrow> s
                              | Some el \<Rightarrow> update_el (el_uid el) (\<lambda>e. e\<lparr>el_src := url\<rparr>) s)
                    in Inr (s1\<lparr>chars := obj_set i ((chars_entry i s1)\<lparr>rt_state := st\<rparr>) (chars s1)\<rparr>))))"

text \<open>
  \<^verbatim>\<open>cmd.state || Object.keys(this.resources.characters[id]?.states || {})[0] || null\<close>
\<close>

definition default_state :: "char_cmd \<Rightarrow> string \<Rightarrow> engine \<Rightarrow> string option" where
  "default_state c i s =
     (if truthy (char_state c) then char_state c
      else (case obj_get i (characters s) of
              Own resChar \<Rightarrow>
                (case res_states resChar of
                   Some ((k, _) # _) \<Rightarrow> if k \<noteq> [] then Some k else None
                 | _ \<Rightarrow> None)
            | _ \<Rightarrow> None))"

text \<open>
  After the effect, \<^verbatim>\<open>setTimeout(() => this.next(), cmd.wait || this.options.transition)\<close>,
  unless the effect threw.
\<close>

definition settle :: "char_cmd \<Rightarrow> engine \<Rightarrow> js_error + engine \<Rightarrow> outcome" where
  "settle c s r =
     (case r of
        Inl e \<Rightarrow> Return (throw e s)
      | Inr s' \<Rightarrow> Return (setTimeout TNext (num_or (char_wait c) (transition s')) s'))"

definition cmdChar :: "char_cmd \<Rightarrow> engine \<Rightarrow> outcome" where
  "cmdChar c s =
     (if \<not> truthy (char_id c) then ThenNext s
      else
        let i = the (char_id c);
            action = str_or (char_action c) ''show''
        in if action = ''show'' then
             settle c s (showChar i (default_state c i s) (str_or (char_side c) ''center'') s)
           else if action = ''hide'' then
             settle c s (hideChar i s)
           else if action = ''setState'' then
             settle c s (setCharState i (char_state c) s)
           else ThenNext (warn (UnknownCharAction action) s))"

definition button :: "nat \<Rightarrow> choice \<Rightarrow> btn_label \<times> choice" where
  "button i ch = ((if truthy (ch_text ch) then BtnText (the (ch_text ch)) else BtnDefault (i + 1)), ch)"

definition cmdChoice :: "choice list option \<Rightarrow> engine \<Rightarrow> outcome" where
  "cmdChoice cs s =
     (let choices = (case cs of None \<Rightarrow> [] | Some xs \<Rightarrow> xs)
      in Return (s\<lparr>choiceBox := map (\<lambda>(i, ch). button i ch) (zip [0..<length choices] choices)\<rparr>))"

text \<open>
  The rejection of the promise of \<^verbatim>\<open>play()\<close> is handled by the \<^verbatim>\<open>catch\<close> callback,
  which runs once the handler has returned and before any timer: the warning is logged
  at once here. \<^verbatim>\<open>this.resources.bgm[id] || id\<close> with an absent id reads the key
  \<^verbatim>\<open>"undefined"\<close>, and is undefined if that finds nothing.
\<close>

definition cmdBgm :: "bgm_cmd \<Rightarrow> engine \<Rightarrow> outcome" where
  "cmdBgm c s =
     (let action = str_or (bgm_action c) ''play'';
          s1 = (if action = ''play'' then
                  let url = (case bgm_id c of
                               None \<Rightarrow> (case obj_get ''undefined'' (bgm s) of
                                         Own u \<Rightarrow> if u = [] then None else Some (Str u)
                                       | _ \<Rightarrow> None)
                             | Some i \<Rightarrow> Some (lookup_or_key (bgm s) i));
                      s2 = s\<lparr>bgmAudio := Some \<lparr>au_src = url, au_loop = bgm_loop c,
                                               au_playing = \<not> audio_fails s\<rparr>\<rparr>;
                      s3 = (if audio_fails s2 then warn BgmPlayFailed s2 else s2)
                  in s3\<lparr>state_bgm := bgm_id c\<rparr>
                else if action = ''stop'' then
                  s\<lparr>bgmAudio := map_option (\<lambda>a. a\<lparr>au_playing := False\<rparr>) (bgmAudio s),
                    state_bgm := None\<rparr>
                else if action = ''pause'' then
                  s\<lparr>bgmAudio := map_option (\<lambda>a. a\<lparr>au_playing := False\<rparr>) (bgmAudio s)\<rparr>
                else s)
      in Return (setTimeout TNext 100 s1))"

definition execute :: "cmd \<Rightarrow> engine \<Rightarrow> outcome" where
  "execute c s =
     (case c of
        Null \<Rightarrow> ThenNext s
      | NoType \<Rightarrow> ThenNext s
      | Say c' \<Rightarrow> cmdSay c' s
      | Bg c' \<Rightarrow> cmdBg c' s
      | Char c' \<Rightarrow> cmdChar c' s
      | Choice cs \<Rightarrow> cmdChoice cs s
      | Wait ms \<Rightarrow> Return (setTimeout TNext (num_or ms 500) s)
      | Label _ \<Rightarrow> ThenNext s
      | Jump to \<Rightarrow> if truthy to then ThenNext (jumpToLabel (the to) s) else ThenNext s
      | Bgm c' \<Rightarrow> cmdBgm c' s
      | End \<Rightarrow> Return (onEnd (s\<lparr>running := False\<rparr>))
      | Other t \<Rightarrow> ThenNext (warn (UnknownCmd t) s))"

text \<open>
  \<^verbatim>\<open>next()\<close> fetches \<^verbatim>\<open>this.script[this.pc++]\<close> and executes it. The handlers call
  \<^verbatim>\<open>next()\<close> again synchronously; a script that jumps in a circle never returns
  (the JavaScript recursion ends in a stack overflow), which is the value \<open>None\<close>.
\<close>

partial_function (option) next_cmd :: "engine \<Rightarrow> engine option" where
  "next_cmd s =
     (if \<not> running s then Some s
      else if pc_ge (pc s) (length (script s)) then Some (s\<lparr>running := False\<rparr>)
      else (case execute (fetch (script s) (pc s)) (s\<lparr>pc := pc_incr (pc s)\<rparr>) of
              Return s' \<Rightarrow> Some s'
            | ThenNext s' \<Rightarrow> next_cmd s'))"

definition finish :: "outcome \<Rightarrow> engine option" where
  "finish r = (case r of Return s \<Rightarrow> Some s | ThenNext s \<Rightarrow> next_cmd s)"

text \<open>
  \<^verbatim>\<open>start\<close> copies the script and indexes the labels; if the scan throws, nothing
  else happens.
\<close>

definition start :: "cmd list \<Rightarrow> engine \<Rightarrow> engine option" where
  "start scr s =
     (if Null \<in> set scr
      then Some (throw TypeError (s\<lparr>script := scr, labels := indexLabels scr\<rparr>))
      else next_cmd (s\<lparr>script := scr, labels := indexLabels scr, pc := Num 0, running := True\<rparr>))"

definition stop :: "engine \<Rightarrow> engine" where
  "stop s = s\<lparr>running := False\<rparr>"

section \<open>Events\<close>

text \<open>The click listener of the container.\<close>

definition onClick :: "engine \<Rightarrow> engine option" where
  "onClick s = (if choiceBox s \<noteq> [] then Some s else next_cmd s)"

text \<open>
  The click listener of a choice button, up to its final \<^verbatim>\<open>this.next()\<close>, and the
  whole click: the listener, then the container's listener, which the click bubbles to.
  A button that is not displayed cannot be clicked.
\<close>

definition choiceListener :: "choice \<Rightarrow> engine \<Rightarrow> engine" where
  "choiceListener ch s =
     (let s1 = s\<lparr>choiceBox := []\<rparr>;
          s2 = (case ch_callback ch of None \<Rightarrow> s1 | Some f \<Rightarrow> s1\<lparr>callbacks_run := callbacks_run s1 @ [f]\<rparr>)
      in if truthy (ch_goto ch) then jumpToLabel (the (ch_goto ch)) s2 else s2)"

definition buttonClick :: "nat \<Rightarrow> engine \<Rightarrow> engine option" where
  "buttonClick i s =
     (if i < length (choiceBox s)
      then (case next_cmd (choiceListener (snd (choiceBox s ! i)) s) of
              None \<Rightarrow> None
            | Some s' \<Rightarrow> onClick s')
      else Some s)"

text \<open>Running a timer's callback.\<close>

definition run_task :: "task \<Rightarrow> engine \<Rightarrow> engine option" where
  "run_task t s =
     (case t of
        TNext \<Rightarrow> next_cmd s
      | TTick txt i cb \<Rightarrow> finish (tick txt i cb s)
      | TRemove u \<Rightarrow> Some (s\<lparr>charLayer := filter (\<lambda>e. el_uid e \<noteq> u) (charLayer s)\<rparr>))"

text \<open>
  The \<open>k\<close>-th pending timer fires: it leaves the queue, the clock moves to its due time
  (never backwards), and its callback runs.
\<close>

definition fire :: "nat \<Rightarrow> engine \<Rightarrow> engine option" where
  "fire k s =
     (if k < length (timers s)
      then run_task (snd (timers s ! k))
             (s\<lparr>now := max (now s) (fst (timers s ! k)),
                timers := take k (timers s) @ drop (Suc k) (timers s)\<rparr>)
      else Some s)"

text \<open>
  The browser fires timers by due time, and timers due together in the order they were
  set: \<open>earliest\<close> is the position of the next one.
\<close>

fun earliest :: "(nat \<times> task) list \<Rightarrow> nat" where
  "earliest [] = 0"
| "earliest [x] = 0"
| "earliest (x # y # ys) =
     (let k = earliest (y # ys) in if fst ((y # ys) ! k) < fst x then Suc k else 0)"

definition fire_next :: "engine \<Rightarrow> engine option" where
  "fire_next s = fire (earliest (timers s)) s"

fun run_timers :: "nat \<Rightarrow> engine \<Rightarrow> engine option" where
  "run_timers 0 s = Some s"
| "run_timers (Suc n) s = (case fire_next s of None \<Rightarrow> None | Some s' \<Rightarrow> run_timers n s')"

text \<open>An animation frame runs the pending frame requests: the elements fade in.\<close>

definition animationFrame :: "engine \<Rightarrow> engine" where
  "animationFrame s =
     s\<lparr>charLayer := map (\<lambda>e. if el_uid e \<in> set (frames s) then e\<lparr>el_opacity := 1\<rparr> else e) (charLayer s),
       frames := []\<rparr>"

section \<open>Notions the properties are stated with\<close>

text \<open>The pending timers whose callback is \<^verbatim>\<open>() => this.next()\<close>, in the order they were set.\<close>

definition advance_timers :: "engine \<Rightarrow> (nat \<times> task) list" where
  "advance_timers s = filter (\<lambda>(d, t). t = TNext) (timers s)"

text \<open>The order of program counters: numbers by size; what is no number only with itself.\<close>

fun pc_le :: "pcval \<Rightarrow> pcval \<Rightarrow> bool" where
  "pc_le (Num a) (Num b) = (a \<le> b)"
| "pc_le NotNum NotNum = True"
| "pc_le _ _ = False"

text \<open>What \<^verbatim>\<open>jumpToLabel\<close> sets pc to for a label that is a property of the label object.\<close>

definition label_target :: "string \<Rightarrow> engine \<Rightarrow> pcval" where
  "label_target l s = (case map_of (labels s) l of Some i \<Rightarrow> Num (i + 1) | None \<Rightarrow> NotNum)"

text \<open>
  A program counter \<open>p\<close> is at or above the one of state \<open>s\<close>, or at or above the
  target of a jump instruction of the script of \<open>s\<close> whose label is a property of the
  label object.
\<close>

definition pc_reached :: "engine \<Rightarrow> pcval \<Rightarrow> bool" where
  "pc_reached s p =
     (pc_le (pc s) p \<or>
      (\<exists>l. Jump (Some l) \<in> set (script s) \<and> truthy (Some l) \<and> obj_has l (labels s) \<and>
           pc_le (label_target l s) p))"

section \<open>Unfolding \<open>next\<close>\<close>

lemma next_cmd_stopped: "\<not> running s \<Longrightarrow> next_cmd s = Some s"
  by (subst next_cmd.simps) simp

lemma next_cmd_end:
  "running s \<Longrightarrow> pc_ge (pc s) (length (script s)) \<Longrightarrow> next_cmd s = Some (s\<lparr>running := False\<rparr>)"
  by (subst next_cmd.simps) simp

lemma next_cmd_step:
  "running s \<Longrightarrow> \<not> pc_ge (pc s) (length (script s)) \<Longrightarrow>
   next_cmd s = finish (execute (fetch (script s) (pc s)) (s\<lparr>pc := pc_incr (pc s)\<rparr>))"
  by (subst next_cmd.simps) (simp add: finish_def)

lemmas eval_defs = execute_def fetch_def cmdSay_def speaker_def typeText_def tick_def run_cb_def
  finish_def setTimeout_def str_or_def is_choice_def is_end_def cmdChoice_def onEnd_def
  fire_next_def fire_def run_task_def onClick_def

section \<open>What the handlers leave alone\<close>

lemma timer_delay_small: "d < 2147483648 \<Longrightarrow> timer_delay d = d"
  by (simp add: timer_delay_def)

lemma timer_delay_16 [simp]: "timer_delay 16 = 16"
  by (simp add: timer_delay_small)

lemma timer_delay_100 [simp]: "timer_delay 100 = 100"
  by (simp add: timer_delay_small)

lemma timer_delay_500 [simp]: "timer_delay 500 = 500"
  by (simp add: timer_delay_small)

lemma code_warn [simp]:
  "pc (warn w s) = pc s" "script (warn w s) = script s" "labels (warn w s) = labels s"
  by (simp_all add: warn_def)

lemma code_throw [simp]:
  "pc (throw e s) = pc s" "script (throw e s) = script s" "labels (throw e s) = labels s"
  by (simp_all add: throw_def)

lemma code_setTimeout [simp]:
  "pc (setTimeout t d s) = pc s" "script (setTimeout t d s) = script s"
  "labels (setTimeout t d s) = labels s"
  by (simp_all add: setTimeout_def)

lemma code_update_el [simp]:
  "pc (update_el u f s) = pc s" "script (update_el u f s) = script s"
  "labels (update_el u f s) = labels s"
  by (simp_all add: update_el_def)

lemma env_warn [simp]:
  "timers (warn w s) = timers s" "now (warn w s) = now s" "transition (warn w s) = transition s"
  by (simp_all add: warn_def)

lemma env_throw [simp]:
  "timers (throw e s) = timers s" "now (throw e s) = now s" "transition (throw e s) = transition s"
  by (simp_all add: throw_def)

lemma env_update_el [simp]:
  "timers (update_el u f s) = timers s" "now (update_el u f s) = now s"
  "transition (update_el u f s) = transition s"
  by (simp_all add: update_el_def)

lemma timers_setTimeout [simp]: "timers (setTimeout t d s) = timers s @ [(now s + timer_delay d, t)]"
  by (simp add: setTimeout_def)


lemma code_run_cb:
  "pc (state_of (run_cb cb s)) = pc s \<and> script (state_of (run_cb cb s)) = script s
   \<and> labels (state_of (run_cb cb s)) = labels s"
  by (cases cb) (simp add: run_cb_def)

lemma code_tick:
  "pc (state_of (tick txt i cb s)) = pc s \<and> script (state_of (tick txt i cb s)) = script s
   \<and> labels (state_of (tick txt i cb s)) = labels s"
  by (simp add: tick_def code_run_cb)

lemma code_cmdSay:
  "pc (state_of (cmdSay c s)) = pc s \<and> script (state_of (cmdSay c s)) = script s
   \<and> labels (state_of (cmdSay c s)) = labels s"
  by (simp add: cmdSay_def Let_def typeText_def code_tick)

lemma code_cmdBg:
  "pc (state_of (cmdBg c s)) = pc s \<and> script (state_of (cmdBg c s)) = script s
   \<and> labels (state_of (cmdBg c s)) = labels s"
  by (simp add: cmdBg_def Let_def setBgImage_def split: option.splits)

lemma showChar_frame:
  "showChar i st side s = Inr s' \<Longrightarrow>
   pc s' = pc s \<and> script s' = script s \<and> labels s' = labels s
   \<and> timers s' = timers s \<and> now s' = now s \<and> transition s' = transition s"
  by (auto simp add: showChar_def Let_def
        split: lookup.splits option.splits sum.splits prod.splits)

lemma setCharState_frame:
  "setCharState i st s = Inr s' \<Longrightarrow>
   pc s' = pc s \<and> script s' = script s \<and> labels s' = labels s
   \<and> timers s' = timers s \<and> now s' = now s \<and> transition s' = transition s"
  by (auto simp add: setCharState_def Let_def
        split: lookup.splits option.splits sum.splits)

lemma hideChar_frame:
  "hideChar i s = Inr s' \<Longrightarrow>
   pc s' = pc s \<and> script s' = script s \<and> labels s' = labels s
   \<and> advance_timers s' = advance_timers s \<and> now s' = now s \<and> transition s' = transition s"
  by (auto simp add: hideChar_def Let_def advance_timers_def setTimeout_def
        split: option.splits sum.splits)

lemma code_settle:
  assumes "\<And>s'. r = Inr s' \<Longrightarrow> pc s' = pc s \<and> script s' = script s \<and> labels s' = labels s"
  shows "pc (state_of (settle c s r)) = pc s \<and> script (state_of (settle c s r)) = script s
   \<and> labels (state_of (settle c s r)) = labels s"
  using assms by (cases r) (simp_all add: settle_def)

lemma code_cmdChar:
  "pc (state_of (cmdChar c s)) = pc s \<and> script (state_of (cmdChar c s)) = script s
   \<and> labels (state_of (cmdChar c s)) = labels s"
  unfolding cmdChar_def Let_def
  by (auto intro!: code_settle dest: showChar_frame hideChar_frame setCharState_frame)

lemma code_cmdChoice:
  "pc (state_of (cmdChoice cs s)) = pc s \<and> script (state_of (cmdChoice cs s)) = script s
   \<and> labels (state_of (cmdChoice cs s)) = labels s"
  by (simp add: cmdChoice_def Let_def)

lemma code_cmdBgm:
  "pc (state_of (cmdBgm c s)) = pc s \<and> script (state_of (cmdBgm c s)) = script s
   \<and> labels (state_of (cmdBgm c s)) = labels s"
  by (simp add: cmdBgm_def Let_def)

lemma code_jumpToLabel:
  "script (jumpToLabel l s) = script s \<and> labels (jumpToLabel l s) = labels s
   \<and> pc (jumpToLabel l s) = (if obj_has l (labels s) then label_target l s else pc s)"
  by (simp add: jumpToLabel_def label_target_def)

lemma code_execute:
  "script (state_of (execute c s)) = script s \<and> labels (state_of (execute c s)) = labels s"
  by (cases c)
     (simp_all add: execute_def code_cmdSay code_cmdBg code_cmdChar code_cmdChoice code_cmdBgm
        onEnd_def code_jumpToLabel)

lemma pc_execute:
  "pc (state_of (execute c s)) = pc s \<or>
   (\<exists>l. c = Jump (Some l) \<and> truthy (Some l) \<and> obj_has l (labels s) \<and>
        pc (state_of (execute c s)) = label_target l s)"
  by (cases c)
     (auto simp add: execute_def code_cmdSay code_cmdBg code_cmdChar code_cmdChoice code_cmdBgm
        onEnd_def truthy_def code_jumpToLabel split: option.splits)

lemma pc_choiceListener:
  "script (choiceListener ch s) = script s \<and> labels (choiceListener ch s) = labels s \<and>
   (pc (choiceListener ch s) = pc s \<or>
    (truthy (ch_goto ch) \<and> obj_has (the (ch_goto ch)) (labels s) \<and>
     pc (choiceListener ch s) = label_target (the (ch_goto ch)) s))"
  by (simp add: choiceListener_def Let_def jumpToLabel_def warn_def label_target_def
        split: option.splits)

section \<open>The run of a two-instruction script\<close>

text \<open>
  Claim C4. For the script \<^verbatim>\<open>[say("hi"), end]\<close>, started on a fresh engine: once the two
  timer ticks of the reveal have fired, the engine is running at pc 1 with the whole text
  shown, no timer pending, no choice displayed and \<^verbatim>\<open>_waitingForClick\<close> set; one click
  executes \<^verbatim>\<open>end\<close>, which clears the running flag and shows the end text; a second
  click changes nothing.
\<close>

theorem say_then_end_scenario:
  "\<exists>s1 s2 s3.
     start [Say \<lparr>say_who = w, say_name = n, say_text = Some ''hi''\<rparr>, End] (new_engine tr) = Some s1
     \<and> run_timers 2 s1 = Some s2
     \<and> running s2 \<and> pc s2 = Num 1 \<and> textContent s2 = ''hi'' \<and> timers s2 = []
     \<and> choiceBox s2 = [] \<and> waitingForClick s2
     \<and> onClick s2 = Some s3
     \<and> \<not> running s3 \<and> pc s3 = Num 2 \<and> textContent s3 = END_TEXT \<and> nameLabel s3 = []
     \<and> onClick s3 = Some s3"
  by (simp add: start_def new_engine_def next_cmd_step next_cmd_stopped eval_defs Let_def
        numeral_2_eq_2 indexLabels_def)

theorem say_then_end_scenario_witness:
  "\<exists>s1 s2 s3.
     start [Say \<lparr>say_who = Some ''liz'', say_name = None, say_text = Some ''hi''\<rparr>, End]
       (new_engine 300) = Some s1
     \<and> run_timers 2 s1 = Some s2
     \<and> running s2 \<and> pc s2 = Num 1 \<and> textContent s2 = ''hi'' \<and> timers s2 = []
     \<and> choiceBox s2 = [] \<and> waitingForClick s2
     \<and> onClick s2 = Some s3
     \<and> \<not> running s3 \<and> pc s3 = Num 2 \<and> textContent s3 = END_TEXT \<and> nameLabel s3 = []
     \<and> onClick s3 = Some s3"
  using say_then_end_scenario [of "Some ''liz''" None 300] by simp

section \<open>Timers that fire after \<open>stop\<close>\<close>

text \<open>
  Claim C7. \<^verbatim>\<open>stop()\<close> clears the running flag, and in every state whose running flag
  is clear, a pending auto-advance timer that fires executes no instruction: the state
  after it is the state before it, but for the timer having left the queue and the
  clock having reached its due time.
\<close>

theorem stopped_timer_is_noop:
  "\<not> running (stop s0) \<and>
   (\<not> running s \<longrightarrow> k < length (timers s) \<longrightarrow> snd (timers s ! k) = TNext \<longrightarrow>
      fire k s = Some (s\<lparr>now := max (now s) (fst (timers s ! k)),
                         timers := take k (timers s) @ drop (Suc k) (timers s)\<rparr>))"
  by (simp add: stop_def fire_def run_task_def next_cmd_stopped)

theorem stopped_timer_is_noop_witness:
  "fire 0 (stop ((new_engine 300)\<lparr>script := [Wait None, End], pc := Num 1, running := True,
                                   timers := [(500, TNext)]\<rparr>))
   = Some ((new_engine 300)\<lparr>script := [Wait None, End], pc := Num 1, running := False,
                              timers := [], now := 500\<rparr>)"
  using stopped_timer_is_noop
    [of "(new_engine 300)\<lparr>script := [Wait None, End], pc := Num 1, running := True,
                              timers := [(500, TNext)]\<rparr>"
        "stop ((new_engine 300)\<lparr>script := [Wait None, End], pc := Num 1, running := True,
                                   timers := [(500, TNext)]\<rparr>)" 0]
  by (simp add: stop_def new_engine_def)

section \<open>Audio failure\<close>

text \<open>
  Claim C8. For every \<^verbatim>\<open>bgm\<close> instruction whose action is \<^verbatim>\<open>play\<close> (or absent), the
  handler returns normally whether or not playback is rejected; a rejection adds one
  warning to the log and leaves the audio element not playing, and in both cases the
  handler sets the same single timer, 100 ms ahead, that calls \<^verbatim>\<open>next()\<close>.
\<close>

theorem bgm_play_failure_is_not_fatal:
  "str_or (bgm_action c) ''play'' = ''play'' \<longrightarrow>
     cmdBgm c (s\<lparr>audio_fails := True\<rparr>)
       = Return ((state_of (cmdBgm c (s\<lparr>audio_fails := False\<rparr>)))
                  \<lparr>audio_fails := True,
                   bgmAudio := map_option (\<lambda>a. a\<lparr>au_playing := False\<rparr>)
                                 (bgmAudio (state_of (cmdBgm c (s\<lparr>audio_fails := False\<rparr>)))),
                   warnings := warnings s @ [BgmPlayFailed]\<rparr>)
     \<and> timers (state_of (cmdBgm c (s\<lparr>audio_fails := True\<rparr>))) = timers s @ [(now s + 100, TNext)]
     \<and> timers (state_of (cmdBgm c (s\<lparr>audio_fails := False\<rparr>))) = timers s @ [(now s + 100, TNext)]
     \<and> warnings (state_of (cmdBgm c (s\<lparr>audio_fails := False\<rparr>))) = warnings s"
  by (simp add: cmdBgm_def Let_def warn_def setTimeout_def cong: option.case_cong)

theorem bgm_play_failure_is_not_fatal_witness:
  "timers (state_of (cmdBgm \<lparr>bgm_action = Some ''play'', bgm_id = Some ''calm'', bgm_loop = True\<rparr>
                      ((new_engine 300)\<lparr>audio_fails := True\<rparr>))) = [(100, TNext)]
   \<and> timers (state_of (cmdBgm \<lparr>bgm_action = Some ''play'', bgm_id = Some ''calm'', bgm_loop = True\<rparr>
                      ((new_engine 300)\<lparr>audio_fails := False\<rparr>))) = [(100, TNext)]"
  using bgm_play_failure_is_not_fatal
    [of "\<lparr>bgm_action = Some ''play'', bgm_id = Some ''calm'', bgm_loop = True\<rparr>" "new_engine 300"]
  by (simp add: str_or_def new_engine_def)

section \<open>The program counter\<close>

lemma pc_le_refl [simp]: "pc_le p p"
  by (cases p) simp_all

lemma pc_le_incr [simp]: "pc_le p (pc_incr p)"
  by (cases p) simp_all

lemma pc_le_trans: "pc_le a b \<Longrightarrow> pc_le b c \<Longrightarrow> pc_le a c"
  by (cases a; cases b; cases c) simp_all

lemma fetch_Jump_in_script: "fetch scr p = Jump x \<Longrightarrow> Jump x \<in> set scr"
  by (auto simp add: fetch_def in_set_conv_nth split: pcval.splits if_splits)

text \<open>
  A state \<open>s'\<close> continues \<open>s\<close>: same script and labels, and a pc that \<open>s\<close> reaches.
\<close>

lemma pc_reached_refl: "pc_reached s (pc s)"
  by (simp add: pc_reached_def)

lemma pc_reached_trans:
  assumes "script s1 = script s" "labels s1 = labels s" "pc_reached s (pc s1)" "pc_reached s1 p"
  shows "pc_reached s p"
  using assms by (auto simp add: pc_reached_def label_target_def dest: pc_le_trans)

lemma pc_reached_execute:
  "pc_reached s (pc (state_of (execute (fetch (script s) (pc s)) (s\<lparr>pc := pc_incr (pc s)\<rparr>))))"
proof -
  let ?c = "fetch (script s) (pc s)"
  let ?s0 = "s\<lparr>pc := pc_incr (pc s)\<rparr>"
  from pc_execute [of ?c ?s0] show ?thesis
  proof
    assume "pc (state_of (execute ?c ?s0)) = pc ?s0"
    then show ?thesis by (simp add: pc_reached_def)
  next
    assume "\<exists>l. ?c = Jump (Some l) \<and> truthy (Some l) \<and> obj_has l (labels ?s0) \<and>
        pc (state_of (execute ?c ?s0)) = label_target l ?s0"
    then obtain l where l: "?c = Jump (Some l)" "truthy (Some l)" "obj_has l (labels s)"
      "pc (state_of (execute ?c ?s0)) = label_target l s"
      by (auto simp add: label_target_def)
    from l(1) have "Jump (Some l) \<in> set (script s)"
      by (rule fetch_Jump_in_script)
    with l show ?thesis
      unfolding pc_reached_def by (intro disjI2 exI [of _ l]) simp
  qed
qed

lemma next_cmd_continues:
  assumes "next_cmd s = Some s'"
  shows "script s' = script s \<and> labels s' = labels s \<and> pc_reached s (pc s')"
proof (rule next_cmd.raw_induct
    [where P = "\<lambda>x y. script y = script x \<and> labels y = labels x \<and> pc_reached x (pc y)", OF _ assms])
  fix f :: "engine \<Rightarrow> engine option" and x y
  assume IH: "\<And>x y. f x = Some y \<Longrightarrow> script y = script x \<and> labels y = labels x \<and> pc_reached x (pc y)"
    and body: "(if \<not> running x then Some x
      else if pc_ge (pc x) (length (script x)) then Some (x\<lparr>running := False\<rparr>)
      else (case execute (fetch (script x) (pc x)) (x\<lparr>pc := pc_incr (pc x)\<rparr>) of
              Return s' \<Rightarrow> Some s'
            | ThenNext s' \<Rightarrow> f s')) = Some y"
  let ?r = "execute (fetch (script x) (pc x)) (x\<lparr>pc := pc_incr (pc x)\<rparr>)"
  have code: "script (state_of ?r) = script x" "labels (state_of ?r) = labels x"
    using code_execute [of "fetch (script x) (pc x)" "x\<lparr>pc := pc_incr (pc x)\<rparr>"] by simp_all
  have reach: "pc_reached x (pc (state_of ?r))"
    by (rule pc_reached_execute)
  show "script y = script x \<and> labels y = labels x \<and> pc_reached x (pc y)"
  proof (cases "\<not> running x \<or> pc_ge (pc x) (length (script x))")
    case True
    with body show ?thesis
      by (auto simp add: pc_reached_refl pc_reached_def split: if_splits)
  next
    case False
    show ?thesis
    proof (cases ?r)
      case (Return s1)
      with body False have "y = s1" by simp
      with Return code reach show ?thesis by simp
    next
      case (ThenNext s1)
      with body False have "f s1 = Some y" by simp
      from IH [OF this] ThenNext code reach show ?thesis
        by (auto intro: pc_reached_trans [of s1 x])
    qed
  qed
qed

lemma finish_continues:
  assumes "finish r = Some s'"
  shows "script s' = script (state_of r) \<and> labels s' = labels (state_of r)
         \<and> pc_reached (state_of r) (pc s')"
  using assms next_cmd_continues
  by (cases r) (auto simp add: finish_def pc_reached_refl)

lemma onClick_continues:
  assumes "onClick s = Some s'"
  shows "script s' = script s \<and> labels s' = labels s \<and> pc_reached s (pc s')"
  using assms next_cmd_continues [of s s']
  by (auto simp add: onClick_def pc_reached_refl split: if_splits)

lemma pc_reached_cong:
  "pc s1 = pc s \<Longrightarrow> script s1 = script s \<Longrightarrow> labels s1 = labels s \<Longrightarrow>
   pc_reached s1 p = pc_reached s p"
  by (simp add: pc_reached_def label_target_def)

lemma run_task_continues:
  assumes "run_task t s = Some s'"
  shows "script s' = script s \<and> labels s' = labels s \<and> pc_reached s (pc s')"
proof (cases t)
  case TNext
  with assms show ?thesis
    by (simp add: run_task_def next_cmd_continues)
next
  case (TTick tx i cb)
  with assms have "finish (tick tx i cb s) = Some s'"
    by (simp add: run_task_def)
  from finish_continues [OF this] code_tick [of tx i cb s] show ?thesis
    by (simp add: pc_reached_cong [of "state_of (tick tx i cb s)" s])
next
  case (TRemove u)
  with assms show ?thesis
    by (auto simp add: run_task_def pc_reached_def)
qed

lemma fire_continues:
  assumes "fire k s = Some s'"
  shows "script s' = script s \<and> labels s' = labels s \<and> pc_reached s (pc s')"
proof (cases "k < length (timers s)")
  case True
  let ?s0 = "s\<lparr>now := max (now s) (fst (timers s ! k)),
                timers := take k (timers s) @ drop (Suc k) (timers s)\<rparr>"
  from assms True have "run_task (snd (timers s ! k)) ?s0 = Some s'"
    by (simp add: fire_def)
  from run_task_continues [OF this] show ?thesis
    by (simp add: pc_reached_cong [of ?s0 s])
next
  case False
  with assms show ?thesis
    by (auto simp add: fire_def pc_reached_refl)
qed

lemma buttonClick_continues:
  assumes "buttonClick i s = Some s'"
  shows "script s' = script s \<and> labels s' = labels s \<and>
         (pc_reached s (pc s') \<or>
          (i < length (choiceBox s) \<and> truthy (ch_goto (snd (choiceBox s ! i))) \<and>
           obj_has (the (ch_goto (snd (choiceBox s ! i)))) (labels s) \<and>
           pc_le (label_target (the (ch_goto (snd (choiceBox s ! i)))) s) (pc s')))"
proof (cases "i < length (choiceBox s)")
  case False
  with assms show ?thesis
    by (auto simp add: buttonClick_def pc_reached_refl)
next
  case True
  let ?ch = "snd (choiceBox s ! i)"
  let ?g = "the (ch_goto ?ch)"
  let ?s0 = "choiceListener ?ch s"
  from assms True obtain s1 where n: "next_cmd ?s0 = Some s1" and o: "onClick s1 = Some s'"
    by (auto simp add: buttonClick_def split: option.splits)
  note a = next_cmd_continues [OF n] and b = onClick_continues [OF o]
  from a b have r0: "pc_reached ?s0 (pc s')"
    by (auto intro: pc_reached_trans [of s1 ?s0])
  note c = pc_choiceListener [of ?ch s]
  from a b c have code: "script s' = script s" "labels s' = labels s"
    by simp_all
  from c have "pc ?s0 = pc s \<or> (truthy (ch_goto ?ch) \<and> obj_has ?g (labels s) \<and>
     pc ?s0 = label_target ?g s)"
    by simp
  then show ?thesis
  proof
    assume "pc ?s0 = pc s"
    with c r0 have "pc_reached s (pc s')"
      by (simp add: pc_reached_cong [of ?s0 s])
    with code show ?thesis by simp
  next
    assume g: "truthy (ch_goto ?ch) \<and> obj_has ?g (labels s) \<and> pc ?s0 = label_target ?g s"
    from r0 c have "pc_le (pc ?s0) (pc s') \<or>
      (\<exists>l. Jump (Some l) \<in> set (script s) \<and> truthy (Some l) \<and> obj_has l (labels s) \<and>
           pc_le (label_target l s) (pc s'))"
      by (simp add: pc_reached_def label_target_def)
    with g True code show ?thesis
      by (auto simp add: pc_reached_def)
  qed
qed

text \<open>
  Claim C9. In every state:
  \<^item> when the running flag is set and pc is inside the script (or is no number),
    \<^verbatim>\<open>next()\<close> is the execution of the instruction at pc with pc incremented, and that
    execution leaves pc at the incremented value unless the instruction is a jump to a
    property of the label object, which sets pc from that property;
  \<^item> otherwise \<^verbatim>\<open>next()\<close> returns with pc unchanged;
  \<^item> whenever a whole call of \<^verbatim>\<open>next()\<close>, a click on the container or the firing of a
    pending timer returns, script and labels are unchanged and pc is at or above its
    old value, or at or above the target of a jump instruction of the script;
  \<^item> the listener of a choice button leaves pc alone, unless the choice has a goto that
    is a property of the label object, which sets pc from that property;
  \<^item> whenever a click on a choice button returns, script and labels are unchanged and pc
    is at or above its old value, the target of a jump instruction of the script, or the
    target of the goto of the choice.
\<close>

theorem pc_changes_only_by_increment_or_jump:
  "(running s \<and> \<not> pc_ge (pc s) (length (script s)) \<longrightarrow>
      next_cmd s = finish (execute (fetch (script s) (pc s)) (s\<lparr>pc := pc_incr (pc s)\<rparr>))
      \<and> (pc (state_of (execute (fetch (script s) (pc s)) (s\<lparr>pc := pc_incr (pc s)\<rparr>))) = pc_incr (pc s)
         \<or> (\<exists>l. fetch (script s) (pc s) = Jump (Some l) \<and> truthy (Some l) \<and> obj_has l (labels s) \<and>
               pc (state_of (execute (fetch (script s) (pc s)) (s\<lparr>pc := pc_incr (pc s)\<rparr>)))
                 = label_target l s)))
   \<and> (\<not> (running s \<and> \<not> pc_ge (pc s) (length (script s))) \<longrightarrow>
        (\<exists>s'. next_cmd s = Some s' \<and> pc s' = pc s))
   \<and> (\<forall>s'. next_cmd s = Some s' \<or> onClick s = Some s' \<or> fire k s = Some s' \<longrightarrow>
        script s' = script s \<and> labels s' = labels s \<and> pc_reached s (pc s'))
   \<and> (pc (choiceListener ch s) = pc s
      \<or> (truthy (ch_goto ch) \<and> obj_has (the (ch_goto ch)) (labels s) \<and>
          pc (choiceListener ch s) = label_target (the (ch_goto ch)) s))
   \<and> (\<forall>s'. buttonClick i s = Some s' \<longrightarrow>
        script s' = script s \<and> labels s' = labels s \<and>
        (pc_reached s (pc s') \<or>
         (i < length (choiceBox s) \<and> truthy (ch_goto (snd (choiceBox s ! i))) \<and>
          obj_has (the (ch_goto (snd (choiceBox s ! i)))) (labels s) \<and>
          pc_le (label_target (the (ch_goto (snd (choiceBox s ! i)))) s) (pc s'))))"
proof -
  have step: "running s \<and> \<not> pc_ge (pc s) (length (script s)) \<longrightarrow>
      next_cmd s = finish (execute (fetch (script s) (pc s)) (s\<lparr>pc := pc_incr (pc s)\<rparr>))
      \<and> (pc (state_of (execute (fetch (script s) (pc s)) (s\<lparr>pc := pc_incr (pc s)\<rparr>))) = pc_incr (pc s)
         \<or> (\<exists>l. fetch (script s) (pc s) = Jump (Some l) \<and> truthy (Some l) \<and> obj_has l (labels s) \<and>
               pc (state_of (execute (fetch (script s) (pc s)) (s\<lparr>pc := pc_incr (pc s)\<rparr>)))
                 = label_target l s))"
    using pc_execute [of "fetch (script s) (pc s)" "s\<lparr>pc := pc_incr (pc s)\<rparr>"]
    by (simp add: label_target_def next_cmd_step)
  have halt: "\<not> (running s \<and> \<not> pc_ge (pc s) (length (script s))) \<longrightarrow>
        (\<exists>s'. next_cmd s = Some s' \<and> pc s' = pc s)"
    by (cases "running s") (simp_all add: next_cmd_stopped next_cmd_end)
  have whole: "\<forall>s'. next_cmd s = Some s' \<or> onClick s = Some s' \<or> fire k s = Some s' \<longrightarrow>
        script s' = script s \<and> labels s' = labels s \<and> pc_reached s (pc s')"
    using next_cmd_continues [of s] onClick_continues [of s] fire_continues [of k s]
    by blast
  have goto: "pc (choiceListener ch s) = pc s
      \<or> (truthy (ch_goto ch) \<and> obj_has (the (ch_goto ch)) (labels s) \<and>
          pc (choiceListener ch s) = label_target (the (ch_goto ch)) s)"
    using pc_choiceListener [of ch s] by simp
  have button: "\<forall>s'. buttonClick i s = Some s' \<longrightarrow>
        script s' = script s \<and> labels s' = labels s \<and>
        (pc_reached s (pc s') \<or>
         (i < length (choiceBox s) \<and> truthy (ch_goto (snd (choiceBox s ! i))) \<and>
          obj_has (the (ch_goto (snd (choiceBox s ! i)))) (labels s) \<and>
          pc_le (label_target (the (ch_goto (snd (choiceBox s ! i)))) s) (pc s')))"
    using buttonClick_continues [of i s] by blast
  show ?thesis
    by (intro conjI) (rule step, rule halt, rule whole, rule goto, rule button)
qed

theorem pc_changes_only_by_increment_or_jump_witness:
  "\<exists>s'. next_cmd ((new_engine 300)\<lparr>script := [Label (Some ''a''), Wait None], running := True\<rparr>) = Some s'
        \<and> pc s' = Num 2
        \<and> pc_reached ((new_engine 300)\<lparr>script := [Label (Some ''a''), Wait None], running := True\<rparr>) (pc s')"
proof -
  let ?s = "(new_engine 300)\<lparr>script := [Label (Some ''a''), Wait None], running := True\<rparr>"
  have n: "next_cmd ?s = Some (?s\<lparr>pc := Num 2, timers := [(500, TNext)]\<rparr>)"
    by (simp add: new_engine_def next_cmd_step eval_defs num_or_def numeral_2_eq_2)
  from pc_changes_only_by_increment_or_jump [of ?s 0]
  have "pc_reached ?s (pc (?s\<lparr>pc := Num 2, timers := [(500, TNext)]\<rparr>))"
    using n by blast
  with n show ?thesis
    by simp
qed

section \<open>Falsy delays\<close>




lemma advance_timers_throw [simp]: "advance_timers (throw e s) = advance_timers s"
  by (simp add: advance_timers_def)

lemma advance_timers_warn [simp]: "advance_timers (warn w s) = advance_timers s"
  by (simp add: advance_timers_def)





section \<open>Running a reveal to its end\<close>

lemma run_timers_add:
  "run_timers (a + b) s = (case run_timers a s of None \<Rightarrow> None | Some s' \<Rightarrow> run_timers b s')"
  by (induction a arbitrary: s) (simp_all split: option.splits)

lemma fire_next_single:
  "timers s = [(d, t)] \<Longrightarrow> fire_next s = run_task t (s\<lparr>now := max (now s) d, timers := []\<rparr>)"
  by (simp add: fire_next_def fire_def)

lemma tick_chain:
  "timers s = [(d, TTick txt i cb)] \<Longrightarrow> i + k = length txt \<Longrightarrow>
   \<exists>d' n'. run_timers k s =
     Some (s\<lparr>now := n', textContent := (if k = 0 then textContent s else txt),
             timers := [(d', TTick txt (length txt) cb)]\<rparr>)"
proof (induction k arbitrary: s i d)
  case 0
  then have "s = s\<lparr>now := now s, textContent := textContent s, timers := [(d, TTick txt (length txt) cb)]\<rparr>"
    by simp
  then show ?case
    by (metis (full_types) run_timers.simps(1))
next
  case (Suc k)
  let ?s1 = "s\<lparr>now := max (now s) d, textContent := take (Suc i) txt,
               timers := [(max (now s) d + 16, TTick txt (Suc i) cb)]\<rparr>"
  from Suc.prems have lt: "i < length txt" by simp
  have step: "fire_next s = Some ?s1"
    using Suc.prems(1) lt
    by (simp add: fire_next_single run_task_def tick_def finish_def setTimeout_def)
  have "timers ?s1 = [(max (now s) d + 16, TTick txt (Suc i) cb)]" by simp
  moreover have "Suc i + k = length txt" using Suc.prems(2) by simp
  ultimately obtain d' n' where
    ih: "run_timers k ?s1 =
           Some (?s1\<lparr>now := n', textContent := (if k = 0 then textContent ?s1 else txt),
                     timers := [(d', TTick txt (length txt) cb)]\<rparr>)"
    using Suc.IH [of ?s1 "max (now s) d + 16" "Suc i"] by blast
  have "k = 0 \<Longrightarrow> take (Suc i) txt = txt"
    using Suc.prems(2) by simp
  then have "?s1\<lparr>now := n', textContent := (if k = 0 then textContent ?s1 else txt),
                 timers := [(d', TTick txt (length txt) cb)]\<rparr>
           = s\<lparr>now := n', textContent := txt, timers := [(d', TTick txt (length txt) cb)]\<rparr>"
    by simp
  with ih step have "run_timers (Suc k) s
      = Some (s\<lparr>now := n', textContent := txt, timers := [(d', TTick txt (length txt) cb)]\<rparr>)"
    by simp
  then show ?case
    by auto
qed

section \<open>A say followed by a choice\<close>

text \<open>
  Claim C6. In every running state with no timer pending whose next instruction is a
  \<^verbatim>\<open>say\<close> immediately followed by a \<^verbatim>\<open>choice\<close>: \<^verbatim>\<open>next()\<close> returns, and once the
  timer ticks of the reveal have fired (as many as the text has characters), and nothing
  else has happened, the whole text is shown, pc is past the choice instruction, the
  choice box holds the buttons of the choices and no timer is pending; while a button is
  displayed a click on the container changes nothing.
\<close>

theorem say_then_choice_needs_no_advance:
  assumes run: "running s" and idle: "timers s = []"
    and at: "pc s = Num k" "Suc k < length (script s)"
    and say: "script s ! k = Say c" and choice: "script s ! Suc k = Choice cs"
  shows "\<exists>s1 s2. next_cmd s = Some s1
           \<and> run_timers (length (str_or (say_text c) [])) s1 = Some s2
           \<and> running s2 \<and> pc s2 = Num (k + 2) \<and> timers s2 = []
           \<and> textContent s2 = str_or (say_text c) []
           \<and> choiceBox s2 = map (\<lambda>(i, ch). button i ch)
                 (zip [0..<length (case cs of None \<Rightarrow> [] | Some xs \<Rightarrow> xs)]
                      (case cs of None \<Rightarrow> [] | Some xs \<Rightarrow> xs))
           \<and> (choiceBox s2 \<noteq> [] \<longrightarrow> onClick s2 = Some s2)"
proof -
  let ?txt = "str_or (say_text c) []"
  let ?cb = "SayDone True False"
  let ?chs = "case cs of None \<Rightarrow> [] | Some xs \<Rightarrow> xs"
  let ?btns = "map (\<lambda>(i, ch). button i ch) (zip [0..<length ?chs] ?chs)"
  define who where "who = speaker c s"
  define s0 where "s0 = s\<lparr>pc := Num (Suc k), nameLabel := who, choiceBox := [], textContent := []\<rparr>"
  have first: "next_cmd s = finish (tick ?txt 0 ?cb s0)"
    using run at say choice
    by (simp add: next_cmd_step execute_def fetch_def cmdSay_def typeText_def Let_def is_choice_def
          is_end_def s0_def who_def speaker_def)
  have into_choice: "next_cmd x = Some (x\<lparr>pc := Num (k + 2), choiceBox := ?btns\<rparr>)"
    if "running x" "pc x = Num (Suc k)" "script x = script s" for x
    using that at choice
    by (simp add: next_cmd_step execute_def fetch_def cmdChoice_def Let_def finish_def)
  show ?thesis
  proof (cases "?txt = []")
    case True
    then have "next_cmd s = Some (s0\<lparr>pc := Num (k + 2), choiceBox := ?btns\<rparr>)"
      using first into_choice [of s0] run
      by (simp add: tick_def run_cb_def finish_def s0_def)
    then show ?thesis
      using True run idle by (simp add: s0_def onClick_def)
  next
    case False
    define s1 where "s1 = s0\<lparr>textContent := take 1 ?txt, timers := [(now s + 16, TTick ?txt 1 ?cb)]\<rparr>"
    have n1: "next_cmd s = Some s1"
      using first False idle
      by (simp add: tick_def finish_def setTimeout_def s1_def s0_def)
    have "timers s1 = [(now s + 16, TTick ?txt 1 ?cb)]"
      by (simp add: s1_def)
    moreover have "1 + (length ?txt - 1) = length ?txt"
      using False by (cases ?txt) simp_all
    ultimately obtain d' n' where
      chain: "run_timers (length ?txt - 1) s1 =
         Some (s1\<lparr>now := n', textContent := (if length ?txt - 1 = 0 then textContent s1 else ?txt),
                  timers := [(d', TTick ?txt (length ?txt) ?cb)]\<rparr>)"
      using tick_chain [of s1 "now s + 16" ?txt 1 ?cb "length ?txt - 1"] by blast
    define s1' where "s1' = s1\<lparr>now := n', textContent := ?txt,
                  timers := [(d', TTick ?txt (length ?txt) ?cb)]\<rparr>"
    have "length ?txt - 1 = 0 \<Longrightarrow> take 1 ?txt = ?txt"
      using False by (cases ?txt) simp_all
    with chain have chain': "run_timers (length ?txt - 1) s1 = Some s1'"
      by (simp add: s1'_def s1_def)
    define s2 where "s2 = s1'\<lparr>now := max n' d', timers := [], pc := Num (k + 2), choiceBox := ?btns\<rparr>"
    have t1: "timers s1' = [(d', TTick ?txt (length ?txt) ?cb)]" "now s1' = n'"
      by (simp_all add: s1'_def)
    have "fire_next s1' = next_cmd (s1'\<lparr>now := max n' d', timers := []\<rparr>)"
      by (simp add: fire_next_single [OF t1(1)] t1(2) run_task_def tick_def run_cb_def finish_def)
    also have "\<dots> = Some s2"
      using into_choice [of "s1'\<lparr>now := max n' d', timers := []\<rparr>"] run
      by (simp add: s1'_def s1_def s0_def s2_def)
    finally have last: "fire_next s1' = Some s2" .
    have "run_timers (length ?txt) s1 = run_timers ((length ?txt - 1) + 1) s1"
      using False by (cases ?txt) simp_all
    also have "\<dots> = Some s2"
      unfolding run_timers_add using chain' last by simp
    finally have r: "run_timers (length ?txt) s1 = Some s2" .
    have "running s2 \<and> pc s2 = Num (k + 2) \<and> timers s2 = [] \<and> textContent s2 = ?txt
        \<and> choiceBox s2 = ?btns \<and> (choiceBox s2 \<noteq> [] \<longrightarrow> onClick s2 = Some s2)"
      using run by (simp add: s2_def s1'_def s1_def s0_def onClick_def)
    with n1 r show ?thesis
      by blast
  qed
qed

theorem say_then_choice_needs_no_advance_witness:
  "\<exists>s1 s2.
     next_cmd ((new_engine 300)
        \<lparr>script := [Say \<lparr>say_who = None, say_name = None, say_text = Some ''hi''\<rparr>,
                    Choice (Some [\<lparr>ch_text = Some ''yes'', ch_goto = None, ch_callback = None\<rparr>])],
         running := True\<rparr>) = Some s1
     \<and> run_timers 2 s1 = Some s2 \<and> running s2 \<and> pc s2 = Num 2 \<and> timers s2 = []
     \<and> textContent s2 = ''hi''
     \<and> choiceBox s2 = [(BtnText ''yes'', \<lparr>ch_text = Some ''yes'', ch_goto = None, ch_callback = None\<rparr>)]
     \<and> (choiceBox s2 \<noteq> [] \<longrightarrow> onClick s2 = Some s2)"
  using say_then_choice_needs_no_advance
    [of "(new_engine 300)
        \<lparr>script := [Say \<lparr>say_who = None, say_name = None, say_text = Some ''hi''\<rparr>,
                    Choice (Some [\<lparr>ch_text = Some ''yes'', ch_goto = None, ch_callback = None\<rparr>])],
         running := True\<rparr>" 0
        "\<lparr>say_who = None, say_name = None, say_text = Some ''hi''\<rparr>"
        "Some [\<lparr>ch_text = Some ''yes'', ch_goto = None, ch_callback = None\<rparr>]"]
  by (simp add: new_engine_def str_or_def button_def truthy_def numeral_2_eq_2)

section \<open>A click while a reveal is in progress\<close>

text \<open>
  The container's click listener returns at once while a choice button is displayed, and
  \<^verbatim>\<open>next()\<close> returns at once when the running flag is clear.
\<close>

lemma click_ignored_when_choice_shown_or_stopped:
  "choiceBox s \<noteq> [] \<or> \<not> running s \<Longrightarrow> onClick s = Some s"
  by (auto simp add: onClick_def next_cmd_stopped)

text \<open>
  Claim C2, at the script \<^verbatim>\<open>[say("ab"), say("cd")]\<close>: right after the start the first
  reveal is in progress (one character shown, its tick pending, \<^verbatim>\<open>_waitingForClick\<close>
  not set). A click in that state is not ignored: it executes the second \<^verbatim>\<open>say\<close>, so
  pc goes from 1 to 2, the text shown is replaced and a second tick chain is pending next
  to the first. The listener never reads \<^verbatim>\<open>_waitingForClick\<close>.
\<close>

theorem click_during_reveal_executes_next_instruction:
  "\<exists>s1 s2.
     start [Say \<lparr>say_who = None, say_name = None, say_text = Some ''ab''\<rparr>,
            Say \<lparr>say_who = None, say_name = None, say_text = Some ''cd''\<rparr>] (new_engine tr) = Some s1
     \<and> pc s1 = Num 1 \<and> textContent s1 = ''a'' \<and> \<not> waitingForClick s1
     \<and> timers s1 = [(16, TTick ''ab'' 1 (SayDone False False))]
     \<and> onClick s1 = Some s2
     \<and> pc s2 = Num 2 \<and> textContent s2 = ''c''
     \<and> timers s2 = [(16, TTick ''ab'' 1 (SayDone False False)), (16, TTick ''cd'' 1 (SayDone False False))]"
  by (simp add: start_def new_engine_def next_cmd_step next_cmd_stopped eval_defs Let_def
        indexLabels_def)

section \<open>The label index\<close>

text \<open>
  For every script without a null entry and every label id that is neither empty nor
  \<^verbatim>\<open>__proto__\<close>, the index holds the position of the last label instruction with that
  id, and a jump to it sets pc to the position after it.
\<close>

lemma indexLabels_snoc:
  assumes "Null \<notin> set scr"
  shows "indexLabels (scr @ [c]) =
     (case c of Label (Some l) \<Rightarrow> if l \<noteq> [] then obj_set l (length scr) (indexLabels scr)
                                  else indexLabels scr
      | _ \<Rightarrow> indexLabels scr)"
proof -
  let ?P = "\<lambda>(i :: nat, c). c \<noteq> Null"
  let ?Z = "zip [0..<length scr] scr"
  have all: "\<And>x. x \<in> set ?Z \<Longrightarrow> ?P x"
    using assms by (auto dest: set_zip_rightD)
  have tw: "takeWhile ?P ?Z = ?Z"
    using all by (simp add: takeWhile_eq_all_conv)
  have tw2: "takeWhile ?P (?Z @ [(length scr, c)]) = ?Z @ takeWhile ?P [(length scr, c)]"
    using all by (rule takeWhile_append2)
  show ?thesis
    by (simp add: indexLabels_def tw tw2 split: cmd.splits option.splits)
qed

lemma indexLabels_last_wins:
  assumes "l \<noteq> []" "l \<noteq> ''__proto__''"
  shows "Null \<notin> set scr \<Longrightarrow>
         map_of (indexLabels scr) l = Some i \<longleftrightarrow>
           i < length scr \<and> scr ! i = Label (Some l) \<and>
           (\<forall>j < length scr. i < j \<longrightarrow> scr ! j \<noteq> Label (Some l))"
proof (induction scr arbitrary: i rule: rev_induct)
  case Nil
  show ?case by (simp add: indexLabels_def)
next
  case (snoc c scr)
  then have nn: "Null \<notin> set scr" by simp
  note IH = snoc.IH [OF nn]
  show ?case
  proof (cases "c = Label (Some l)")
    case True
    then have "map_of (indexLabels (scr @ [c])) l = Some (length scr)"
      using assms by (simp add: indexLabels_snoc [OF nn] obj_set_def update_conv)
    moreover have "(i < length (scr @ [c]) \<and> (scr @ [c]) ! i = Label (Some l) \<and>
           (\<forall>j < length (scr @ [c]). i < j \<longrightarrow> (scr @ [c]) ! j \<noteq> Label (Some l)))
           \<longleftrightarrow> i = length scr"
      using True by (auto simp add: nth_append less_Suc_eq)
    ultimately show ?thesis by auto
  next
    case False
    then have "map_of (indexLabels (scr @ [c])) l = map_of (indexLabels scr) l"
      by (auto simp add: indexLabels_snoc [OF nn] obj_set_def update_conv
            split: cmd.splits option.splits)
    moreover have "(i < length (scr @ [c]) \<and> (scr @ [c]) ! i = Label (Some l) \<and>
           (\<forall>j < length (scr @ [c]). i < j \<longrightarrow> (scr @ [c]) ! j \<noteq> Label (Some l)))
           \<longleftrightarrow> (i < length scr \<and> scr ! i = Label (Some l) \<and>
           (\<forall>j < length scr. i < j \<longrightarrow> scr ! j \<noteq> Label (Some l)))"
      using False by (auto simp add: nth_append less_Suc_eq)
    ultimately show ?thesis using IH by simp
  qed
qed

lemma jump_resolves_last_label:
  assumes "l \<noteq> []" "l \<noteq> ''__proto__''" "Null \<notin> set scr"
    and "i < length scr" "scr ! i = Label (Some l)"
    and "\<forall>j < length scr. i < j \<longrightarrow> scr ! j \<noteq> Label (Some l)"
  shows "pc (jumpToLabel l (s\<lparr>labels := indexLabels scr\<rparr>)) = Num (i + 1)"
  using indexLabels_last_wins [OF assms(1,2,3), of i] assms(4-)
  by (simp add: jumpToLabel_def obj_has_def)

lemma label_index_example:
  "indexLabels [Label (Some ''A''), Wait None, Wait None, Label (Some ''B''), Wait None, Wait None,
                Wait None, Label (Some ''A''), End] = [(''A'', 7), (''B'', 3)]
   \<and> pc (jumpToLabel ''A'' (s\<lparr>labels := [(''A'', 7), (''B'', 3)]\<rparr>)) = Num 8"
  by (simp add: indexLabels_def obj_set_def jumpToLabel_def obj_has_def)

text \<open>
  Claim C3, at the script \<^verbatim>\<open>[label("__proto__"), end]\<close>: the assignment
  \<^verbatim>\<open>this.labels["__proto__"] = 0\<close> creates no property, so the index is empty, and a
  jump to that label does not set pc to 1, the position after the label instruction: it
  reads the inherited \<^verbatim>\<open>__proto__\<close> and pc is no number afterwards.
\<close>

theorem label_named_proto_is_not_indexed:
  "indexLabels [Label (Some ''__proto__''), End] = []
   \<and> pc (jumpToLabel ''__proto__'' ((new_engine tr)\<lparr>script := [Label (Some ''__proto__''), End],
           labels := indexLabels [Label (Some ''__proto__''), End]\<rparr>)) = NotNum"
  by (simp add: indexLabels_def obj_set_def jumpToLabel_def obj_has_def Object_prototype_keys_def)

section \<open>Jumps to labels that are not in the script\<close>

text \<open>
  Once pc is no number, \<^verbatim>\<open>next()\<close> never returns while the running flag is set: every
  fetch yields undefined, which is skipped by another call of \<^verbatim>\<open>next()\<close>.
\<close>

lemma next_cmd_NotNum_diverges:
  assumes "next_cmd s = Some s'"
  shows "\<not> (running s \<and> pc s = NotNum)"
proof (rule next_cmd.raw_induct [where P = "\<lambda>x y. \<not> (running x \<and> pc x = NotNum)", OF _ assms])
  fix f :: "engine \<Rightarrow> engine option" and x y
  assume IH: "\<And>x y. f x = Some y \<Longrightarrow> \<not> (running x \<and> pc x = NotNum)"
    and body: "(if \<not> running x then Some x
      else if pc_ge (pc x) (length (script x)) then Some (x\<lparr>running := False\<rparr>)
      else (case execute (fetch (script x) (pc x)) (x\<lparr>pc := pc_incr (pc x)\<rparr>) of
              Return s' \<Rightarrow> Some s'
            | ThenNext s' \<Rightarrow> f s')) = Some y"
  show "\<not> (running x \<and> pc x = NotNum)"
  proof
    assume a: "running x \<and> pc x = NotNum"
    with body have "f (x\<lparr>pc := NotNum\<rparr>) = Some y"
      by (simp add: fetch_def execute_def)
    from IH [OF this] a show False
      by simp
  qed
qed

lemma next_cmd_NotNum: "running s \<Longrightarrow> pc s = NotNum \<Longrightarrow> next_cmd s = None"
  using next_cmd_NotNum_diverges [of s] by (cases "next_cmd s") auto

lemma jump_to_unknown_label:
  "truthy (Some l) \<Longrightarrow> \<not> obj_has l (labels s) \<Longrightarrow>
   execute (Jump (Some l)) s = ThenNext (warn (LabelNotFound l) s)"
  by (simp add: execute_def jumpToLabel_def)

text \<open>
  Claim C5, at the script \<^verbatim>\<open>[jump("constructor"), end]\<close>, which has no label: the
  test \<^verbatim>\<open>id in this.labels\<close> succeeds on the inherited property, so the jump logs no
  warning and sets pc to a value that is no number, and the run started on this script
  never returns from \<^verbatim>\<open>next()\<close> instead of going on to \<^verbatim>\<open>end\<close>.
\<close>

theorem jump_to_inherited_property_name:
  "execute (Jump (Some ''constructor''))
       ((new_engine tr)\<lparr>script := [Jump (Some ''constructor''), End],
          labels := indexLabels [Jump (Some ''constructor''), End], pc := Num 1, running := True\<rparr>)
     = ThenNext ((new_engine tr)\<lparr>script := [Jump (Some ''constructor''), End],
          labels := [], pc := NotNum, running := True\<rparr>)
   \<and> start [Jump (Some ''constructor''), End] (new_engine tr) = None"
proof -
  let ?scr = "[Jump (Some ''constructor''), End]"
  define S0 where "S0 = (new_engine tr)\<lparr>script := ?scr, labels := indexLabels ?scr, pc := Num 0,
                                        running := True\<rparr>"
  define S1 where "S1 = (new_engine tr)\<lparr>script := ?scr, labels := [], pc := NotNum, running := True\<rparr>"
  have jump: "execute (Jump (Some ''constructor'')) (S0\<lparr>pc := Num 1\<rparr>) = ThenNext S1"
    by (simp add: S0_def S1_def execute_def truthy_def jumpToLabel_def obj_has_def
          Object_prototype_keys_def indexLabels_def new_engine_def)
  have "start ?scr (new_engine tr) = next_cmd S0"
    by (simp add: start_def S0_def)
  also have "\<dots> = finish (execute (fetch (script S0) (pc S0)) (S0\<lparr>pc := pc_incr (pc S0)\<rparr>))"
    by (rule next_cmd_step) (simp_all add: S0_def)
  also have "\<dots> = finish (execute (Jump (Some ''constructor'')) (S0\<lparr>pc := Num 1\<rparr>))"
    by (simp add: S0_def fetch_def)
  also have "\<dots> = next_cmd S1"
    by (simp only: jump finish_def outcome.case)
  also have "\<dots> = None"
    by (rule next_cmd_NotNum) (simp_all add: S1_def)
  finally have "start ?scr (new_engine tr) = None" .
  with jump show ?thesis
    by (simp add: S0_def S1_def new_engine_def)
qed

section \<open>Starting a reveal while another is in flight\<close>

lemma run_timers_seq:
  "run_timers a s = Some s' \<Longrightarrow> run_timers b s' = r \<Longrightarrow> run_timers (a + b) s = r"
  by (simp add: run_timers_add)

lemma run_timers_one:
  "fire_next s = Some s' \<Longrightarrow> run_timers b s' = r \<Longrightarrow> run_timers (Suc b) s = r"
  by simp

lemma fire_next_pair:
  "timers x = [(T, a), (T', b)] \<Longrightarrow> T \<le> T' \<Longrightarrow>
   fire_next x = run_task a (x\<lparr>now := max (now x) T, timers := [(T', b)]\<rparr>)"
  by (simp add: fire_next_def fire_def)

lemma tick_task_step:
  "i < length txt \<Longrightarrow>
   run_task (TTick txt i cb) x =
     Some (x\<lparr>textContent := take (Suc i) txt,
             timers := timers x @ [(now x + 16, TTick txt (Suc i) cb)]\<rparr>)"
  by (simp add: run_task_def tick_def finish_def setTimeout_def)

lemma tick_task_done:
  "length txt \<le> i \<Longrightarrow>
   run_task (TTick txt i (SayDone False e)) x =
     Some (x\<lparr>waitingForClick := True, endOnClick := (endOnClick x \<or> e)\<rparr>)"
  by (simp add: run_task_def tick_def finish_def run_cb_def)

lemma chain_completes:
  assumes "timers x = [(d, TTick txt i (SayDone False e))]" "i \<le> length txt"
  shows "\<exists>n'. run_timers (length txt - i + Suc 0) x =
           Some (x\<lparr>now := n', textContent := (if i = length txt then textContent x else txt),
                   timers := [], waitingForClick := True, endOnClick := (endOnClick x \<or> e)\<rparr>)"
proof -
  let ?cb = "SayDone False e"
  have "i + (length txt - i) = length txt" using assms(2) by simp
  from tick_chain [OF assms(1) this] obtain d' n' where
    c: "run_timers (length txt - i) x =
          Some (x\<lparr>now := n', textContent := (if length txt - i = 0 then textContent x else txt),
                  timers := [(d', TTick txt (length txt) ?cb)]\<rparr>)"
    by blast
  define y where "y = x\<lparr>now := n', textContent := (if i = length txt then textContent x else txt),
                  timers := [(d', TTick txt (length txt) ?cb)]\<rparr>"
  have c': "run_timers (length txt - i) x = Some y"
    using c assms(2) by (simp add: y_def)
  have ty: "timers y = [(d', TTick txt (length txt) ?cb)]"
    by (simp add: y_def)
  have "fire_next y = Some (y\<lparr>now := max (now y) d', timers := [], waitingForClick := True,
                               endOnClick := (endOnClick y \<or> e)\<rparr>)"
    by (simp add: fire_next_single [OF ty] tick_task_done)
  then have "run_timers (Suc 0) y = Some (y\<lparr>now := max (now y) d', timers := [], waitingForClick := True,
                               endOnClick := (endOnClick y \<or> e)\<rparr>)"
    by simp
  from run_timers_seq [OF c' this]
  have "run_timers (length txt - i + Suc 0) x =
          Some (x\<lparr>now := max (now y) d', textContent := (if i = length txt then textContent x else txt),
                  timers := [], waitingForClick := True, endOnClick := (endOnClick x \<or> e)\<rparr>)"
    by (simp add: y_def)
  then show ?thesis by blast
qed

lemma lockstep_round:
  assumes "timers x = [(T, TTick t i cb1), (T, TTick u i cb2)]" "i < length t" "i < length u"
  shows "run_timers 2 x =
           Some (x\<lparr>now := max (now x) T, textContent := take (Suc i) u,
                   timers := [(max (now x) T + 16, TTick t (Suc i) cb1),
                              (max (now x) T + 16, TTick u (Suc i) cb2)]\<rparr>)"
proof -
  define x1 where "x1 = x\<lparr>now := max (now x) T, textContent := take (Suc i) t,
                   timers := [(T, TTick u i cb2), (max (now x) T + 16, TTick t (Suc i) cb1)]\<rparr>"
  have f1: "fire_next x = Some x1"
    using assms by (simp add: fire_next_pair [OF assms(1)] tick_task_step x1_def)
  have t1: "timers x1 = [(T, TTick u i cb2), (max (now x) T + 16, TTick t (Suc i) cb1)]"
    by (simp add: x1_def)
  have f2: "fire_next x1 =
           Some (x\<lparr>now := max (now x) T, textContent := take (Suc i) u,
                   timers := [(max (now x) T + 16, TTick t (Suc i) cb1),
                              (max (now x) T + 16, TTick u (Suc i) cb2)]\<rparr>)"
    using assms(3) by (simp add: fire_next_pair [OF t1] tick_task_step) (simp add: x1_def)
  show ?thesis
    using f1 f2 by (simp add: numeral_2_eq_2)
qed

lemma lockstep_rounds:
  assumes "timers x = [(T, TTick t i cb1), (T, TTick u i cb2)]" "i + j \<le> length t" "i + j \<le> length u"
  shows "\<exists>T' n'. run_timers (2 * j) x =
           Some (x\<lparr>now := n', textContent := (if j = 0 then textContent x else take (i + j) u),
                   timers := [(T', TTick t (i + j) cb1), (T', TTick u (i + j) cb2)]\<rparr>)"
  using assms
proof (induction j arbitrary: x T i)
  case 0
  then have "x = x\<lparr>now := now x, textContent := textContent x,
                    timers := [(T, TTick t i cb1), (T, TTick u i cb2)]\<rparr>"
    by simp
  then show ?case
    by (intro exI [of _ T] exI [of _ "now x"]) simp
next
  case (Suc j)
  define x1 where "x1 = x\<lparr>now := max (now x) T, textContent := take (Suc i) u,
                   timers := [(max (now x) T + 16, TTick t (Suc i) cb1),
                              (max (now x) T + 16, TTick u (Suc i) cb2)]\<rparr>"
  have r: "run_timers 2 x = Some x1"
    using lockstep_round [OF Suc.prems(1)] Suc.prems(2,3) by (simp add: x1_def)
  have "timers x1 = [(max (now x) T + 16, TTick t (Suc i) cb1),
                     (max (now x) T + 16, TTick u (Suc i) cb2)]"
    by (simp add: x1_def)
  from Suc.IH [OF this] Suc.prems(2,3) obtain T' n' where
    ih: "run_timers (2 * j) x1 =
           Some (x1\<lparr>now := n', textContent := (if j = 0 then textContent x1 else take (Suc i + j) u),
                   timers := [(T', TTick t (Suc i + j) cb1), (T', TTick u (Suc i + j) cb2)]\<rparr>)"
    by auto
  have "run_timers (2 + 2 * j) x =
           Some (x\<lparr>now := n', textContent := take (i + Suc j) u,
                   timers := [(T', TTick t (i + Suc j) cb1), (T', TTick u (i + Suc j) cb2)]\<rparr>)"
    using run_timers_seq [OF r ih] by (simp add: x1_def)
  moreover have "2 + 2 * j = 2 * Suc j" by simp
  ultimately have "run_timers (2 * Suc j) x =
           Some (x\<lparr>now := n', textContent := take (i + Suc j) u,
                   timers := [(T', TTick t (i + Suc j) cb1), (T', TTick u (i + Suc j) cb2)]\<rparr>)"
    by (simp only:)
  then show ?case
    by (simp del: run_timers.simps mult_Suc_right) blast
qed

text \<open>
  Claim C1 as stated fails. With the script \<^verbatim>\<open>[say("ab"), say("cdef"), end]\<close>, a click
  right after the start begins the reveal of the second text while the first is in
  flight. After three timer ticks \<^verbatim>\<open>_waitingForClick\<close> is set although the new reveal
  has shown two characters only and its tick is still pending: the callback of the first
  reveal has fired (the new one would have set \<^verbatim>\<open>_endOnClick\<close> as well).
\<close>

theorem replaced_reveal_callback_fires:
  "Option.bind (Option.bind
      (start [Say \<lparr>say_who = None, say_name = None, say_text = Some ''ab''\<rparr>,
              Say \<lparr>say_who = None, say_name = None, say_text = Some ''cdef''\<rparr>, End] (new_engine 300))
      onClick) (run_timers 3)
   = Some ((new_engine 300)
       \<lparr>script := [Say \<lparr>say_who = None, say_name = None, say_text = Some ''ab''\<rparr>,
              Say \<lparr>say_who = None, say_name = None, say_text = Some ''cdef''\<rparr>, End],
        pc := Num 2, running := True, textContent := ''cd'', waitingForClick := True,
        endOnClick := False, now := 32,
        timers := [(32, TTick ''cdef'' 2 (SayDone False True))]\<rparr>)"
  by (simp add: start_def new_engine_def next_cmd_step next_cmd_stopped eval_defs Let_def
        indexLabels_def numeral_3_eq_3)

text \<open>
  Claim C1, amended. Starting a new reveal does not cancel the one in flight. When a
  reveal of a non-empty text of length N is started with no timer pending and a reveal
  of a non-empty text of length M is started right after it, both with callbacks that do
  not call \<^verbatim>\<open>next()\<close>: the tick of the old reveal stays pending next to the tick of the
  new one; after the N + M timer ticks of the two chains no timer is pending and both
  callbacks have run (\<^verbatim>\<open>_waitingForClick\<close> is set, and \<^verbatim>\<open>_endOnClick\<close> is set if
  either callback sets it); the text shown at the end is the new text, unless the old
  text is longer, in which case it is the old text.
\<close>

theorem replaced_reveal_still_completes:
  assumes idle: "timers s = []" and t: "t \<noteq> []" and u: "u \<noteq> []"
  shows "\<exists>s2 s3.
           typeText u (SayDone False en) (state_of (typeText t (SayDone False eo) s)) = Return s2
         \<and> timers s2 = [(now s + 16, TTick t 1 (SayDone False eo)),
                         (now s + 16, TTick u 1 (SayDone False en))]
         \<and> run_timers (length t + length u) s2 = Some s3
         \<and> timers s3 = [] \<and> waitingForClick s3
         \<and> endOnClick s3 = (endOnClick s \<or> eo \<or> en)
         \<and> textContent s3 = (if length u < length t then t else u)"
proof -
  let ?cb1 = "SayDone False eo"
  let ?cb2 = "SayDone False en"
  define s2 where "s2 = s\<lparr>choiceBox := [], textContent := take 1 u,
       timers := [(now s + 16, TTick t 1 ?cb1), (now s + 16, TTick u 1 ?cb2)]\<rparr>"
  have start2: "typeText u ?cb2 (state_of (typeText t ?cb1 s)) = Return s2"
    using idle t u by (simp add: typeText_def tick_def setTimeout_def s2_def)
  have ts2: "timers s2 = [(now s + 16, TTick t 1 ?cb1), (now s + 16, TTick u 1 ?cb2)]"
    by (simp add: s2_def)
  define m where "m = min (length t) (length u)"
  have m1: "1 \<le> m"
    using t u by (cases t; cases u) (simp_all add: m_def)
  have m_eq: "1 + (m - 1) = m"
    using m1 by simp
  have "m \<le> length t" "m \<le> length u"
    by (simp_all add: m_def)
  then have "1 + (m - 1) \<le> length t" "1 + (m - 1) \<le> length u"
    by (simp_all only: m_eq)
  from lockstep_rounds [OF ts2 this] obtain T' n' where
    rounds: "run_timers (2 * (m - 1)) s2 =
       Some (s2\<lparr>now := n', textContent := (if m - 1 = 0 then textContent s2 else take (1 + (m - 1)) u),
               timers := [(T', TTick t (1 + (m - 1)) ?cb1), (T', TTick u (1 + (m - 1)) ?cb2)]\<rparr>)"
    by blast
  define y where "y = s2\<lparr>now := n', textContent := take m u,
               timers := [(T', TTick t m ?cb1), (T', TTick u m ?cb2)]\<rparr>"
  have "(if m - 1 = 0 then textContent s2 else take m u) = take m u"
    using m1 by (auto simp add: s2_def)
  with rounds have ry: "run_timers (2 * (m - 1)) s2 = Some y"
    by (simp only: m_eq y_def)
  have ty: "timers y = [(T', TTick t m ?cb1), (T', TTick u m ?cb2)]"
    by (simp add: y_def)
  show ?thesis
  proof (cases "length t \<le> length u")
    case True
    then have mt: "m = length t"
      by (simp add: m_def)
    define y1 where "y1 = y\<lparr>now := max (now y) T', timers := [(T', TTick u m ?cb2)],
        waitingForClick := True, endOnClick := (endOnClick y \<or> eo)\<rparr>"
    have f: "fire_next y = Some y1"
      by (simp add: fire_next_pair [OF ty] tick_task_done mt y1_def)
    have ty1: "timers y1 = [(T', TTick u m ?cb2)]"
      by (simp add: y1_def)
    have "m \<le> length u"
      using True mt by simp
    from chain_completes [OF ty1 this] obtain n'' where
      c: "run_timers (length u - m + Suc 0) y1 =
           Some (y1\<lparr>now := n'', textContent := (if m = length u then textContent y1 else u),
                   timers := [], waitingForClick := True, endOnClick := (endOnClick y1 \<or> en)\<rparr>)"
      by blast
    define s3 where "s3 = y1\<lparr>now := n'', textContent := (if m = length u then textContent y1 else u),
                   timers := [], waitingForClick := True, endOnClick := (endOnClick y1 \<or> en)\<rparr>"
    have "run_timers (2 * (m - 1) + Suc (length u - m + Suc 0)) s2 = Some s3"
      using run_timers_seq [OF ry run_timers_one [OF f c]] by (simp only: s3_def)
    moreover have "2 * (m - 1) + Suc (length u - m + Suc 0) = length t + length u"
      using True m1 mt by simp
    ultimately have r: "run_timers (length t + length u) s2 = Some s3"
      by (simp only:)
    have "timers s3 = [] \<and> waitingForClick s3 \<and> endOnClick s3 = (endOnClick s \<or> eo \<or> en)
        \<and> textContent s3 = (if length u < length t then t else u)"
      using True mt by (auto simp add: s3_def y1_def y_def s2_def)
    with start2 ts2 r show ?thesis
      by blast
  next
    case False
    then have mu: "m = length u" and lt: "m < length t"
      by (simp_all add: m_def)
    define a where "a = max (now y) T'"
    define y1 where "y1 = y\<lparr>now := a, textContent := take (Suc m) t,
        timers := [(T', TTick u m ?cb2), (a + 16, TTick t (Suc m) ?cb1)]\<rparr>"
    have f1: "fire_next y = Some y1"
      using lt by (simp add: fire_next_pair [OF ty] tick_task_step y1_def a_def)
    have ty1: "timers y1 = [(T', TTick u m ?cb2), (a + 16, TTick t (Suc m) ?cb1)]"
      by (simp add: y1_def)
    have le: "T' \<le> a + 16"
      by (simp add: a_def)
    define y2 where "y2 = y1\<lparr>now := max (now y1) T', timers := [(a + 16, TTick t (Suc m) ?cb1)],
        waitingForClick := True, endOnClick := (endOnClick y1 \<or> en)\<rparr>"
    have f2: "fire_next y1 = Some y2"
      by (simp add: fire_next_pair [OF ty1 le] tick_task_done mu y2_def)
    have ty2: "timers y2 = [(a + 16, TTick t (Suc m) ?cb1)]"
      by (simp add: y2_def)
    have "Suc m \<le> length t"
      using lt by simp
    from chain_completes [OF ty2 this] obtain n'' where
      c: "run_timers (length t - Suc m + Suc 0) y2 =
           Some (y2\<lparr>now := n'', textContent := (if Suc m = length t then textContent y2 else t),
                   timers := [], waitingForClick := True, endOnClick := (endOnClick y2 \<or> eo)\<rparr>)"
      by blast
    define s3 where "s3 = y2\<lparr>now := n'', textContent := (if Suc m = length t then textContent y2 else t),
                   timers := [], waitingForClick := True, endOnClick := (endOnClick y2 \<or> eo)\<rparr>"
    have "run_timers (2 * (m - 1) + Suc (Suc (length t - Suc m + Suc 0))) s2 = Some s3"
      using run_timers_seq [OF ry run_timers_one [OF f1 run_timers_one [OF f2 c]]]
      by (simp only: s3_def)
    moreover have "2 * (m - 1) + Suc (Suc (length t - Suc m + Suc 0)) = length t + length u"
      using lt m1 mu by simp
    ultimately have r: "run_timers (length t + length u) s2 = Some s3"
      by (simp only:)
    have "timers s3 = [] \<and> waitingForClick s3 \<and> endOnClick s3 = (endOnClick s \<or> eo \<or> en)
        \<and> textContent s3 = (if length u < length t then t else u)"
      using lt mu by (auto simp add: s3_def y2_def y1_def y_def s2_def)
    with start2 ts2 r show ?thesis
      by blast
  qed
qed

theorem replaced_reveal_still_completes_witness:
  "\<exists>s2 s3.
      typeText ''cdef'' (SayDone False False)
        (state_of (typeText ''ab'' (SayDone False True) (new_engine 300))) = Return s2
    \<and> timers s2 = [(now (new_engine 300) + 16, TTick ''ab'' 1 (SayDone False True)),
                    (now (new_engine 300) + 16, TTick ''cdef'' 1 (SayDone False False))]
    \<and> run_timers (length ''ab'' + length ''cdef'') s2 = Some s3
    \<and> timers s3 = [] \<and> waitingForClick s3
    \<and> endOnClick s3 = (endOnClick (new_engine 300) \<or> True \<or> False)
    \<and> textContent s3 = (if length ''cdef'' < length ''ab'' then ''ab'' else ''cdef'')"
proof -
  have "timers (new_engine 300) = []" "''ab'' \<noteq> []" "''cdef'' \<noteq> []"
    by (simp_all add: new_engine_def)
  from replaced_reveal_still_completes [OF this, where eo = True and en = False] show ?thesis .
qed

end
